theory Spec2Isabelle
  imports Main
begin

section \<open>Data model\<close>

text \<open>
  The persistent entities follow \<^verbatim>\<open>prisma/schema.prisma\<close>. Columns that are
  \<^verbatim>\<open>String\<close> in the schema (channel, status) stay strings, since the worker
  and the sweeps compare them as strings. A \<^verbatim>\<open>DateTime\<close> is the number of
  milliseconds since the epoch. An optional column or an optional property of a job
  payload is an \<open>option\<close>.
\<close>

type_synonym date = int

text \<open>
  The payload shared by a queued job (\<^verbatim>\<open>job.data\<close>), a notification log
  row and a scheduled notification row.
\<close>

record payload =
  userId :: "int option"
  to :: string
  channel :: string
  message :: string
  subject :: "string option"
  templateId :: "int option"
  campaignId :: "int option"
  metadata :: "string option"

text \<open>
  \<^verbatim>\<open>model NotificationLog\<close>: \<^verbatim>\<open>attempt Int @default(1)\<close>,
  \<^verbatim>\<open>deliveredAt DateTime?\<close>, \<^verbatim>\<open>createdAt DateTime @default(now())\<close>.
\<close>

record notificationLog = payload +
  status :: string
  error :: "string option"
  attempt :: int
  deliveredAt :: "date option"
  createdAt :: date

text \<open>\<^verbatim>\<open>model ScheduledNotification\<close>: \<^verbatim>\<open>status String @default("pending")\<close>.\<close>

record scheduledNotification = payload +
  sn_id :: int
  sendAt :: date
  sn_status :: string
  sn_createdAt :: date

text \<open>\<^verbatim>\<open>model NotificationCampaign\<close>, with the columns the engine reads or writes.\<close>

record notificationCampaign =
  c_id :: int
  c_userId :: int
  c_name :: string
  c_channel :: string
  recipients :: "string list"
  c_templateId :: "int option"
  c_status :: string
  totalRecipients :: int
  successCount :: int
  failureCount :: int
  startedAt :: "date option"
  completedAt :: "date option"

record notificationTemplate =
  t_id :: int
  t_userId :: int
  t_channel :: string
  t_subject :: "string option"
  content :: string
  isActive :: bool

text \<open>
  The options every enqueue of the repository passes to \<^verbatim>\<open>notificationQueue.add\<close>
  (\<^verbatim>\<open>attempts\<close>, \<^verbatim>\<open>backoff.type\<close>, \<^verbatim>\<open>backoff.delay\<close> in milliseconds),
  and a job as the worker sees it: its data and \<^verbatim>\<open>job.attemptsMade\<close>.
\<close>

record jobOpts =
  attempts :: nat
  backoffType :: string
  backoffDelay :: nat

record job =
  data :: payload
  opts :: jobOpts
  attemptsMade :: nat

text \<open>
  One call of a channel sender: \<^verbatim>\<open>sendEmail(to, message, subject)\<close>,
  \<^verbatim>\<open>sendSMS(to, message)\<close> or \<^verbatim>\<open>sendInApp(targetId, message)\<close>.
\<close>

datatype senderCall =
  SendEmail string string "string option"
  | SendSMS string string
  | SendInApp string string

text \<open>
  The world the engine acts on: the tables of the store (of the users only the ids
  matter here), the last value of the autoincrement sequence of the scheduled
  notifications, the queue (jobs in the order they were added) and the calls made to
  the channel senders so far.
\<close>

record world =
  users :: "int list"
  campaigns :: "notificationCampaign list"
  notificationLogs :: "notificationLog list"
  scheduledNotifications :: "scheduledNotification list"
  templates :: "notificationTemplate list"
  scheduledSeq :: int
  queue :: "job list"
  senderCalls :: "senderCall list"

section \<open>Store primitives\<close>

text \<open>
  JavaScript truthiness of an optional integer: \<^verbatim>\<open>if (campaignId)\<close> is taken for a
  defined, non-zero number.
\<close>

definition truthy :: "int option \<Rightarrow> bool" where
  "truthy v = (case v of None \<Rightarrow> False | Some n \<Rightarrow> n \<noteq> 0)"

text \<open>
  \<^verbatim>\<open>prisma.notificationCampaign.update({ where: { id }, data })\<close> changes the row
  with that id and rejects when there is none.
\<close>

definition recordNotFound :: string where
  "recordNotFound = ''Record to update not found.''"

definition updateCampaign ::
  "int \<Rightarrow> (notificationCampaign \<Rightarrow> notificationCampaign) \<Rightarrow> world \<Rightarrow> string + world" where
  "updateCampaign i f w =
     (if i \<in> c_id ` set (campaigns w)
      then Inr (w\<lparr>campaigns := map (\<lambda>c. if c_id c = i then f c else c) (campaigns w)\<rparr>)
      else Inl recordNotFound)"

text \<open>
  \<^verbatim>\<open>prisma.notificationLog.create\<close> inserts a row. The migration gives the table
  the foreign keys \<^verbatim>\<open>userId\<close>, \<^verbatim>\<open>templateId\<close> and \<^verbatim>\<open>campaignId\<close>;
  an insert that names a missing row is rejected by the store.
\<close>

definition refOk :: "int option \<Rightarrow> int list \<Rightarrow> bool" where
  "refOk v ids = (case v of None \<Rightarrow> True | Some n \<Rightarrow> n \<in> set ids)"

definition foreignKeysOk :: "'a payload_scheme \<Rightarrow> world \<Rightarrow> bool" where
  "foreignKeysOk d w =
     (refOk (userId d) (users w) \<and>
      refOk (templateId d) (map t_id (templates w)) \<and>
      refOk (campaignId d) (map c_id (campaigns w)))"

section \<open>The worker\<close>

text \<open>
  What the environment decides in one run of the processor: whether the channel sender
  rejects (and with which message), whether the store rejects the update of the
  campaign counter in the \<^verbatim>\<open>try\<close> block, the one in the \<^verbatim>\<open>catch\<close> block, or
  the insert of the log row (a closed connection, a pool or lock timeout), and the time
  \<^verbatim>\<open>new Date()\<close> reads. Besides that, an operation of the store fails where its
  own contract says so on the current tables (an update of a missing row, a foreign key
  naming a missing row).
\<close>

record attemptEnv =
  senderError :: "string option"
  successUpdateDown :: bool
  failureUpdateDown :: bool
  logStoreDown :: bool
  clock :: date

text \<open>How the processor's promise settles: resolved, or rejected with an error message.\<close>

datatype outcome = Completed | Thrown string

text \<open>Decimal rendering of a number inside a template literal (\<^verbatim>\<open>`user_${userId}`\<close>).\<close>

fun showNat :: "nat \<Rightarrow> string" where
  "showNat n =
     (if n < 10 then [''0123456789'' ! n]
      else showNat (n div 10) @ [''0123456789'' ! (n mod 10)])"

definition showInt :: "int \<Rightarrow> string" where
  "showInt i = (if i < 0 then CHR ''-'' # showNat (nat (- i)) else showNat (nat i))"

text \<open>
  A sender call is recorded and settles as the environment says. The result pairs the
  error, if any, with the world after the call.
\<close>

definition callSender :: "attemptEnv \<Rightarrow> senderCall \<Rightarrow> world \<Rightarrow> string option \<times> world" where
  "callSender e c w = (senderError e, w\<lparr>senderCalls := senderCalls w @ [c]\<rparr>)"

text \<open>Lines 35 to 45 of the enhanced worker: the channel decides the sender.\<close>

definition dispatch :: "attemptEnv \<Rightarrow> payload \<Rightarrow> world \<Rightarrow> string option \<times> world" where
  "dispatch e d w =
     (if channel d = ''email'' then callSender e (SendEmail (to d) (message d) (subject d)) w
      else if channel d = ''sms'' then callSender e (SendSMS (to d) (message d)) w
      else if channel d = ''in-app'' then
        (let targetId = (case userId d of
                           None \<Rightarrow> to d
                         | Some u \<Rightarrow> if u \<noteq> 0 then ''user_'' @ showInt u else to d)
         in callSender e (SendInApp targetId (message d)) w)
      else (Some (''Unknown channel: '' @ channel d), w))"

text \<open>
  \<^verbatim>\<open>successCount: { increment: 1 }\<close> and \<^verbatim>\<open>failureCount: { increment: 1 }\<close>:
  the store adds one to the column of the row, in one step.
\<close>

definition incSuccess :: "notificationCampaign \<Rightarrow> notificationCampaign" where
  "incSuccess c = c\<lparr>successCount := successCount c + 1\<rparr>"

definition incFailure :: "notificationCampaign \<Rightarrow> notificationCampaign" where
  "incFailure c = c\<lparr>failureCount := failureCount c + 1\<rparr>"

text \<open>
  The update of a counter by the worker: rejected when the environment says so, and
  else as the tables decide.
\<close>

definition counterStoreError :: string where
  "counterStoreError = ''Timed out fetching a new connection from the connection pool''"

definition updateCounter ::
  "bool \<Rightarrow> int \<Rightarrow> (notificationCampaign \<Rightarrow> notificationCampaign) \<Rightarrow> world \<Rightarrow> string + world" where
  "updateCounter down i f w = (if down then Inl counterStoreError else updateCampaign i f w)"

text \<open>
  The \<^verbatim>\<open>try\<close> block (lines 32 to 61): the error that leaves it, if any, the value
  of \<^verbatim>\<open>deliveredAt\<close> at its end, and the world.
\<close>

definition tryBlock :: "attemptEnv \<Rightarrow> payload \<Rightarrow> world \<Rightarrow> string option \<times> date option \<times> world" where
  "tryBlock e d w =
     (case dispatch e d w of
        (Some err, w1) \<Rightarrow> (Some err, None, w1)
      | (None, w1) \<Rightarrow>
          (case campaignId d of
             None \<Rightarrow> (None, Some (clock e), w1)
           | Some cid \<Rightarrow>
               if cid \<noteq> 0 then
                 (case updateCounter (successUpdateDown e) cid incSuccess w1 of
                    Inl err \<Rightarrow> (Some err, Some (clock e), w1)
                  | Inr w2 \<Rightarrow> (None, Some (clock e), w2))
               else (None, Some (clock e), w1)))"

text \<open>
  The \<^verbatim>\<open>catch\<close> block (lines 62 to 78) for the caught error \<open>err\<close>: the error
  that leaves the block (\<open>err\<close> rethrown, or the rejection of the counter update) and
  the world.
\<close>

definition catchBlock :: "attemptEnv \<Rightarrow> payload \<Rightarrow> string \<Rightarrow> world \<Rightarrow> string \<times> world" where
  "catchBlock e d err w =
     (case campaignId d of
        None \<Rightarrow> (err, w)
      | Some cid \<Rightarrow>
          if cid \<noteq> 0 then
            (case updateCounter (failureUpdateDown e) cid incFailure w of
               Inl err2 \<Rightarrow> (err2, w)
             | Inr w2 \<Rightarrow> (err, w2))
          else (err, w))"

text \<open>
  The \<^verbatim>\<open>finally\<close> block (lines 79 to 101): one insert into the log, whose rejection
  is caught and only printed.
\<close>

definition attemptLog ::
  "attemptEnv \<Rightarrow> job \<Rightarrow> string \<Rightarrow> string option \<Rightarrow> date option \<Rightarrow> notificationLog" where
  "attemptLog e j st err dAt =
     payload.extend (data j)
       (notificationLog.fields st err (int (attemptsMade j) + 1) dAt (clock e))"

definition logInsertRejected :: "attemptEnv \<Rightarrow> 'a payload_scheme \<Rightarrow> world \<Rightarrow> bool" where
  "logInsertRejected e d w = (logStoreDown e \<or> \<not> foreignKeysOk d w)"

definition finallyBlock ::
  "attemptEnv \<Rightarrow> job \<Rightarrow> string \<Rightarrow> string option \<Rightarrow> date option \<Rightarrow> world \<Rightarrow> world" where
  "finallyBlock e j st err dAt w =
     (if logInsertRejected e (data j) w then w
      else w\<lparr>notificationLogs := notificationLogs w @ [attemptLog e j st err dAt]\<rparr>)"

text \<open>The processor of the enhanced worker, for one attempt of one job.\<close>

definition processor :: "attemptEnv \<Rightarrow> job \<Rightarrow> world \<Rightarrow> outcome \<times> world" where
  "processor e j w =
     (case tryBlock e (data j) w of
        (None, dAt, w1) \<Rightarrow> (Completed, finallyBlock e j ''success'' None dAt w1)
      | (Some err, dAt, w1) \<Rightarrow>
          (case catchBlock e (data j) err w1 of
             (thrown, w2) \<Rightarrow> (Thrown thrown, finallyBlock e j ''failed'' (Some err) dAt w2)))"

text \<open>
  The processor of the first worker (\<^verbatim>\<open>worker/notificationWorker.ts\<close>). It passes
  no subject and no user id to the senders, writes only \<^verbatim>\<open>to\<close>, \<^verbatim>\<open>channel\<close>,
  \<^verbatim>\<open>message\<close>, \<^verbatim>\<open>status\<close> and \<^verbatim>\<open>error\<close> to the log (the other columns
  take their defaults: \<^verbatim>\<open>attempt\<close> is 1), and awaits the insert in \<^verbatim>\<open>finally\<close>
  without a handler, so that a rejected insert becomes the rejection of the processor.
\<close>

definition legacyDispatch :: "attemptEnv \<Rightarrow> payload \<Rightarrow> world \<Rightarrow> string option \<times> world" where
  "legacyDispatch e d w =
     (if channel d = ''email'' then callSender e (SendEmail (to d) (message d) None) w
      else if channel d = ''sms'' then callSender e (SendSMS (to d) (message d)) w
      else if channel d = ''in-app'' then callSender e (SendInApp (to d) (message d)) w
      else (Some ''Unknown channel'', w))"

definition legacyLog :: "attemptEnv \<Rightarrow> payload \<Rightarrow> string \<Rightarrow> string option \<Rightarrow> notificationLog" where
  "legacyLog e d st err =
     \<lparr>userId = None, to = to d, channel = channel d, message = message d, subject = None,
      templateId = None, campaignId = None, metadata = None,
      status = st, error = err, attempt = 1, deliveredAt = None, createdAt = clock e\<rparr>"

definition logStoreError :: string where
  "logStoreError = ''Cannot reach database server''"

definition legacyProcessor :: "attemptEnv \<Rightarrow> job \<Rightarrow> world \<Rightarrow> outcome \<times> world" where
  "legacyProcessor e j w =
     (case legacyDispatch e (data j) w of
        (r, w1) \<Rightarrow>
          (let st = (case r of None \<Rightarrow> ''success'' | Some err \<Rightarrow> ''failed'') in
           if logStoreDown e then (Thrown logStoreError, w1)
           else (case r of None \<Rightarrow> Completed | Some err \<Rightarrow> Thrown err,
                 w1\<lparr>notificationLogs := notificationLogs w1 @ [legacyLog e (data j) st r]\<rparr>)))"

section \<open>Redelivery by the queue\<close>

text \<open>
  The queue is the BullMQ library, a collaborator outside the repository. The worker
  relies on one part of its contract, named at the \<^verbatim>\<open>throw err\<close> of both
  processors ("This triggers BullMQ to retry, if the job was added with
  attempts/backoff"): a job whose processor rejects is handed to the processor again,
  with \<^verbatim>\<open>attemptsMade\<close> one higher, until \<^verbatim>\<open>attempts\<close> runs were made; then it
  is failed for good. A processor that resolves completes the job. The environment
  supplies one \<open>attemptEnv\<close> per run; when it has no more to offer the job is still
  waiting for its next run.
\<close>

datatype jobState = JobCompleted | JobFailed string | JobWaiting

fun runJob ::
  "(attemptEnv \<Rightarrow> job \<Rightarrow> world \<Rightarrow> outcome \<times> world) \<Rightarrow> attemptEnv list \<Rightarrow> job \<Rightarrow> world
   \<Rightarrow> jobState \<times> world" where
  "runJob p [] j w = (JobWaiting, w)"
| "runJob p (e # es) j w =
     (case p e j w of
        (Completed, w1) \<Rightarrow> (JobCompleted, w1)
      | (Thrown err, w1) \<Rightarrow>
          if attemptsMade j + 1 < attempts (opts j)
          then runJob p es (j\<lparr>attemptsMade := attemptsMade j + 1\<rparr>) w1
          else (JobFailed err, w1))"

text \<open>The retry policy of every enqueue in the routes, the scheduler and the campaign start.\<close>

definition retryPolicy :: jobOpts where
  "retryPolicy = \<lparr>attempts = 3, backoffType = ''exponential'', backoffDelay = 10000\<rparr>"

section \<open>The scheduler\<close>

text \<open>
  \<^verbatim>\<open>prisma.scheduledNotification.update({ where: { id }, data: { status } })\<close>.
  The result pairs the rejection, if any, with the world.
\<close>

definition updateScheduled :: "int \<Rightarrow> string \<Rightarrow> world \<Rightarrow> string option \<times> world" where
  "updateScheduled i s w =
     (if i \<in> sn_id ` set (scheduledNotifications w)
      then (None, w\<lparr>scheduledNotifications :=
                      map (\<lambda>n. if sn_id n = i then n\<lparr>sn_status := s\<rparr> else n)
                        (scheduledNotifications w)\<rparr>)
      else (Some recordNotFound, w))"

text \<open>The \<^verbatim>\<open>findMany\<close> of the promotion sweep (lines 15 to 31).\<close>

definition dueNotifications :: "date \<Rightarrow> world \<Rightarrow> scheduledNotification list" where
  "dueNotifications now w =
     filter (\<lambda>n. sendAt n \<le> now \<and> sn_status n = ''pending'') (scheduledNotifications w)"

text \<open>The job the sweep adds for a record (lines 40 to 59).\<close>

definition jobOf :: "scheduledNotification \<Rightarrow> job" where
  "jobOf n = \<lparr>data = payload.truncate n, opts = retryPolicy, attemptsMade = 0\<rparr>"

text \<open>
  The body of the loop (lines 38 to 77). \<open>queueDown\<close> says for which payloads
  \<^verbatim>\<open>notificationQueue.add\<close> rejects. A rejection inside \<^verbatim>\<open>try\<close>, of the add or
  of the update to \<^verbatim>\<open>queued\<close>, leads to the update to \<^verbatim>\<open>failed\<close> in
  \<^verbatim>\<open>catch\<close>; a rejection of that one leaves the loop.
\<close>

definition promote :: "(payload \<Rightarrow> bool) \<Rightarrow> scheduledNotification \<Rightarrow> world \<Rightarrow> string option \<times> world" where
  "promote queueDown n w =
     (if queueDown (payload.truncate n) then updateScheduled (sn_id n) ''failed'' w
      else
        (case updateScheduled (sn_id n) ''queued'' (w\<lparr>queue := queue w @ [jobOf n]\<rparr>) of
           (None, w2) \<Rightarrow> (None, w2)
         | (Some err, w2) \<Rightarrow> updateScheduled (sn_id n) ''failed'' w2))"

fun promoteAll :: "(payload \<Rightarrow> bool) \<Rightarrow> scheduledNotification list \<Rightarrow> world \<Rightarrow> world" where
  "promoteAll queueDown [] w = w"
| "promoteAll queueDown (n # ns) w =
     (case promote queueDown n w of
        (None, w1) \<Rightarrow> promoteAll queueDown ns w1
      | (Some err, w1) \<Rightarrow> w1)"

definition promotionSweep :: "(payload \<Rightarrow> bool) \<Rightarrow> date \<Rightarrow> world \<Rightarrow> world" where
  "promotionSweep queueDown now w = promoteAll queueDown (dueNotifications now w) w"

text \<open>
  The campaign completion sweep (lines 85 to 121). The \<^verbatim>\<open>findMany\<close> returns the
  running campaigns, each with the number of its scheduled notifications whose status is
  \<^verbatim>\<open>pending\<close> or \<^verbatim>\<open>queued\<close>; the loop decides on these values.
\<close>

definition pendingCount :: "world \<Rightarrow> notificationCampaign \<Rightarrow> nat" where
  "pendingCount w c =
     length (filter (\<lambda>n. campaignId n = Some (c_id c) \<and> sn_status n \<in> set [''pending'', ''queued''])
               (scheduledNotifications w))"

definition runningCampaigns :: "world \<Rightarrow> (notificationCampaign \<times> nat) list" where
  "runningCampaigns w =
     map (\<lambda>c. (c, pendingCount w c)) (filter (\<lambda>c. c_status c = ''running'') (campaigns w))"

definition markCompleted :: "date \<Rightarrow> notificationCampaign \<Rightarrow> notificationCampaign" where
  "markCompleted now c = c\<lparr>c_status := ''completed'', completedAt := Some now\<rparr>"

definition isFinished :: "notificationCampaign \<times> nat \<Rightarrow> bool" where
  "isFinished cp =
     (case cp of (campaign, pending) \<Rightarrow>
        (let totalSent = successCount campaign + failureCount campaign
         in pending = 0 \<and> totalSent \<ge> totalRecipients campaign))"

fun completeAll :: "date \<Rightarrow> (notificationCampaign \<times> nat) list \<Rightarrow> world \<Rightarrow> world" where
  "completeAll now [] w = w"
| "completeAll now (cp # cps) w =
     (if isFinished cp then
        (case updateCampaign (c_id (fst cp)) (markCompleted now) w of
           Inl err \<Rightarrow> w
         | Inr w1 \<Rightarrow> completeAll now cps w1)
      else completeAll now cps w)"

definition completionSweep :: "date \<Rightarrow> world \<Rightarrow> world" where
  "completionSweep now w = completeAll now (runningCampaigns w) w"

section \<open>The routes\<close>

text \<open>
  A property of a request body as the validators see it: not there, there but of the
  wrong type or format, or a value of the expected type. For \<^verbatim>\<open>sendAt\<close> the value
  is the instant \<^verbatim>\<open>new Date(sendAt)\<close> of the ISO 8601 string.
\<close>

datatype 'a field = Absent | Malformed | Valid 'a

record notifyBody =
  req_to :: "string field"
  req_channel :: "string field"
  req_message :: "string field"
  req_subject :: "string field"
  req_sendAt :: "date field"
  req_templateId :: "int field"
  req_metadata :: "string field"

record bulkBody =
  req_recipients :: "string list field"
  bulk_channel :: "string field"
  bulk_message :: "string field"
  bulk_subject :: "string field"
  bulk_templateId :: "int field"
  bulk_sendAt :: "date field"

text \<open>The responses of the handlers modelled here: status code and body.\<close>

datatype response =
  ValidationFailed "string list"
  | BadRequest string
  | NotFound string
  | InternalError
  | Unanswered
  | Queued
  | Scheduled date int
  | ScheduledNoId date
  | QueuedBulk nat
  | ScheduledBulk date nat "int list"
  | Ok string
  | CampaignStarted nat

text \<open>
  The validators of express-validator used by the routes: \<^verbatim>\<open>isString().notEmpty()\<close>,
  \<^verbatim>\<open>isIn(["email", "sms", "in-app"])\<close>, \<^verbatim>\<open>optional()\<close> followed by a type
  check, and \<^verbatim>\<open>isArray({ min, max })\<close>. Each yields the errors it reports for the
  named property.
\<close>

definition nonEmptyString :: "string \<Rightarrow> string field \<Rightarrow> string list" where
  "nonEmptyString name f = (case f of Valid v \<Rightarrow> if v = [] then [name] else [] | _ \<Rightarrow> [name])"

definition isInChannels :: "string \<Rightarrow> string field \<Rightarrow> string list" where
  "isInChannels name f =
     (case f of Valid v \<Rightarrow> if v \<in> set [''email'', ''sms'', ''in-app''] then [] else [name]
      | _ \<Rightarrow> [name])"

definition optionalField :: "string \<Rightarrow> 'a field \<Rightarrow> string list" where
  "optionalField name f = (case f of Malformed \<Rightarrow> [name] | _ \<Rightarrow> [])"

definition isArrayBetween :: "nat \<Rightarrow> nat \<Rightarrow> string \<Rightarrow> 'a list field \<Rightarrow> string list" where
  "isArrayBetween lo hi name f =
     (case f of Valid xs \<Rightarrow> if lo \<le> length xs \<and> length xs \<le> hi then [] else [name]
      | _ \<Rightarrow> [name])"

definition fieldValue :: "'a field \<Rightarrow> 'a option" where
  "fieldValue f = (case f of Valid v \<Rightarrow> Some v | _ \<Rightarrow> None)"

text \<open>
  The template check shared by the two enhanced handlers (lines 51 to 65 and 142 to
  156): the message of the 400 response, if any.
\<close>

definition checkTemplate :: "int option \<Rightarrow> int \<Rightarrow> string \<Rightarrow> world \<Rightarrow> string option" where
  "checkTemplate tid uid ch w =
     (if truthy tid then
        (case find (\<lambda>t. Some (t_id t) = tid \<and> t_userId t = uid \<and> isActive t) (templates w) of
           None \<Rightarrow> Some ''Invalid template or template not found''
         | Some template \<Rightarrow>
             if t_channel template \<noteq> ch then Some ''Template channel mismatch'' else None)
      else None)"

text \<open>
  \<^verbatim>\<open>prisma.scheduledNotification.create\<close>: the row takes the next id of the sequence
  and the default status \<^verbatim>\<open>pending\<close>. The table has the same three foreign keys as
  the log; \<open>None\<close> is the rejected insert.
\<close>

definition createScheduled :: "date \<Rightarrow> payload \<Rightarrow> date \<Rightarrow> world \<Rightarrow> (scheduledNotification \<times> world) option" where
  "createScheduled now d at w =
     (if foreignKeysOk d w then
        (let n = payload.extend d
                   (scheduledNotification.fields (scheduledSeq w + 1) at ''pending'' now)
         in Some (n, w\<lparr>scheduledNotifications := scheduledNotifications w @ [n],
                        scheduledSeq := scheduledSeq w + 1\<rparr>))
      else None)"

text \<open>\<^verbatim>\<open>notificationQueue.add("send", data, { attempts: 3, backoff: ... })\<close>.\<close>

definition addJob :: "(payload \<Rightarrow> bool) \<Rightarrow> payload \<Rightarrow> world \<Rightarrow> world option" where
  "addJob queueDown d w =
     (if queueDown d then None
      else Some (w\<lparr>queue := queue w @ [\<lparr>data = d, opts = retryPolicy, attemptsMade = 0\<rparr>]\<rparr>))"

text \<open>
  \<^verbatim>\<open>POST /\<close> of the enhanced notify router, behind the rate limiter and the
  authentication, for the authenticated user \<open>uid\<close>.
\<close>

definition validateNotify :: "notifyBody \<Rightarrow> string list" where
  "validateNotify b =
     nonEmptyString ''to'' (req_to b) @ isInChannels ''channel'' (req_channel b) @
     nonEmptyString ''message'' (req_message b) @ optionalField ''subject'' (req_subject b) @
     optionalField ''sendAt'' (req_sendAt b) @ optionalField ''templateId'' (req_templateId b) @
     optionalField ''metadata'' (req_metadata b)"

definition notifyPayload :: "int \<Rightarrow> notifyBody \<Rightarrow> string \<Rightarrow> string \<Rightarrow> string \<Rightarrow> payload" where
  "notifyPayload uid b t c m =
     \<lparr>userId = Some uid, to = t, channel = c, message = m,
      subject = (if c = ''email'' then fieldValue (req_subject b) else None),
      templateId = fieldValue (req_templateId b), campaignId = None,
      metadata = fieldValue (req_metadata b)\<rparr>"

definition postNotify :: "(payload \<Rightarrow> bool) \<Rightarrow> date \<Rightarrow> int \<Rightarrow> notifyBody \<Rightarrow> world \<Rightarrow> response \<times> world" where
  "postNotify queueDown now uid b w =
     (case (validateNotify b, req_to b, req_channel b, req_message b) of
        ([], Valid t, Valid c, Valid m) \<Rightarrow>
          (case checkTemplate (fieldValue (req_templateId b)) uid c w of
             Some msg \<Rightarrow> (BadRequest msg, w)
           | None \<Rightarrow>
               (case req_sendAt b of
                  Valid at \<Rightarrow>
                    (case createScheduled now (notifyPayload uid b t c m) at w of
                       Some (scheduled, w1) \<Rightarrow> (Scheduled at (sn_id scheduled), w1)
                     | None \<Rightarrow> (InternalError, w))
                | _ \<Rightarrow>
                    (case addJob queueDown (notifyPayload uid b t c m) w of
                       Some w1 \<Rightarrow> (Queued, w1)
                     | None \<Rightarrow> (InternalError, w))))
      | (errors, _, _, _) \<Rightarrow> (ValidationFailed errors, w))"

text \<open>
  \<^verbatim>\<open>POST /\<close> of the first notify router (\<^verbatim>\<open>routes/notify.ts\<close>): no user, no
  template, no \<^verbatim>\<open>try\<close>; the scheduled answer carries no id. A rejected store or
  queue call rejects the handler, and the request gets no answer.
\<close>

definition legacyValidate :: "notifyBody \<Rightarrow> string list" where
  "legacyValidate b =
     nonEmptyString ''to'' (req_to b) @ isInChannels ''channel'' (req_channel b) @
     nonEmptyString ''message'' (req_message b) @ optionalField ''sendAt'' (req_sendAt b)"

definition legacyPayload :: "string \<Rightarrow> string \<Rightarrow> string \<Rightarrow> payload" where
  "legacyPayload t c m =
     \<lparr>userId = None, to = t, channel = c, message = m, subject = None,
      templateId = None, campaignId = None, metadata = None\<rparr>"

definition legacyPostNotify :: "(payload \<Rightarrow> bool) \<Rightarrow> date \<Rightarrow> notifyBody \<Rightarrow> world \<Rightarrow> response \<times> world" where
  "legacyPostNotify queueDown now b w =
     (case (legacyValidate b, req_to b, req_channel b, req_message b) of
        ([], Valid t, Valid c, Valid m) \<Rightarrow>
          (case req_sendAt b of
             Valid at \<Rightarrow>
               (case createScheduled now (legacyPayload t c m) at w of
                  Some (scheduled, w1) \<Rightarrow> (ScheduledNoId at, w1)
                | None \<Rightarrow> (Unanswered, w))
           | _ \<Rightarrow>
               (case addJob queueDown (legacyPayload t c m) w of
                  Some w1 \<Rightarrow> (Queued, w1)
                | None \<Rightarrow> (Unanswered, w)))
      | (errors, _, _, _) \<Rightarrow> (ValidationFailed errors, w))"

text \<open>
  \<^verbatim>\<open>POST /bulk\<close>. \<^verbatim>\<open>recipients.map\<close> starts one insert, or one add, per
  recipient; \<^verbatim>\<open>Promise.all\<close> rejects when one of them does, and the others have
  happened all the same.
\<close>

definition validateBulk :: "bulkBody \<Rightarrow> string list" where
  "validateBulk b =
     isArrayBetween 1 100 ''recipients'' (req_recipients b) @
     isInChannels ''channel'' (bulk_channel b) @ nonEmptyString ''message'' (bulk_message b) @
     optionalField ''subject'' (bulk_subject b) @ optionalField ''templateId'' (bulk_templateId b) @
     optionalField ''sendAt'' (bulk_sendAt b)"

definition bulkPayload :: "int \<Rightarrow> bulkBody \<Rightarrow> string \<Rightarrow> string \<Rightarrow> string \<Rightarrow> payload" where
  "bulkPayload uid b c m t =
     \<lparr>userId = Some uid, to = t, channel = c, message = m,
      subject = (if c = ''email'' then fieldValue (bulk_subject b) else None),
      templateId = fieldValue (bulk_templateId b), campaignId = None, metadata = None\<rparr>"

fun createEach ::
  "date \<Rightarrow> date \<Rightarrow> payload list \<Rightarrow> world \<Rightarrow> scheduledNotification list option \<times> world" where
  "createEach now at [] w = (Some [], w)"
| "createEach now at (d # ds) w =
     (case createScheduled now d at w of
        None \<Rightarrow> (None, snd (createEach now at ds w))
      | Some (n, w1) \<Rightarrow>
          (case createEach now at ds w1 of (r, w2) \<Rightarrow> (map_option ((#) n) r, w2)))"

fun addEach :: "(payload \<Rightarrow> bool) \<Rightarrow> payload list \<Rightarrow> world \<Rightarrow> bool \<times> world" where
  "addEach queueDown [] w = (True, w)"
| "addEach queueDown (d # ds) w =
     (case addJob queueDown d w of
        None \<Rightarrow> (False, snd (addEach queueDown ds w))
      | Some w1 \<Rightarrow> addEach queueDown ds w1)"

definition postBulk :: "(payload \<Rightarrow> bool) \<Rightarrow> date \<Rightarrow> int \<Rightarrow> bulkBody \<Rightarrow> world \<Rightarrow> response \<times> world" where
  "postBulk queueDown now uid b w =
     (case (validateBulk b, req_recipients b, bulk_channel b, bulk_message b) of
        ([], Valid rs, Valid c, Valid m) \<Rightarrow>
          (case checkTemplate (fieldValue (bulk_templateId b)) uid c w of
             Some msg \<Rightarrow> (BadRequest msg, w)
           | None \<Rightarrow>
               (case bulk_sendAt b of
                  Valid at \<Rightarrow>
                    (case createEach now at (map (bulkPayload uid b c m) rs) w of
                       (Some ns, w1) \<Rightarrow> (ScheduledBulk at (length ns) (map sn_id ns), w1)
                     | (None, w1) \<Rightarrow> (InternalError, w1))
                | _ \<Rightarrow>
                    (case addEach queueDown (map (bulkPayload uid b c m) rs) w of
                       (True, w1) \<Rightarrow> (QueuedBulk (length rs), w1)
                     | (False, w1) \<Rightarrow> (InternalError, w1))))
      | (errors, _, _, _) \<Rightarrow> (ValidationFailed errors, w))"

text \<open>
  \<^verbatim>\<open>DELETE /scheduled/:id\<close> for the authenticated user \<open>uid\<close> and the parsed id:
  the \<^verbatim>\<open>findFirst\<close> asks for the id, the user and the status \<^verbatim>\<open>pending\<close>.
\<close>

definition cancelScheduled :: "int \<Rightarrow> int \<Rightarrow> world \<Rightarrow> response \<times> world" where
  "cancelScheduled uid notificationId w =
     (case find (\<lambda>n. sn_id n = notificationId \<and> userId n = Some uid \<and> sn_status n = ''pending'')
             (scheduledNotifications w) of
        None \<Rightarrow> (NotFound ''Scheduled notification not found or cannot be cancelled'', w)
      | Some scheduled \<Rightarrow>
          (case updateScheduled notificationId ''cancelled'' w of
             (None, w1) \<Rightarrow> (Ok ''Scheduled notification cancelled successfully'', w1)
           | (Some err, w1) \<Rightarrow> (InternalError, w1)))"

text \<open>
  \<^verbatim>\<open>POST /:id/start\<close> of the campaigns router. The loop awaits each add in turn,
  so the first rejection ends it.
\<close>

definition campaignPayload ::
  "int \<Rightarrow> notificationCampaign \<Rightarrow> notificationTemplate \<Rightarrow> string \<Rightarrow> payload" where
  "campaignPayload uid campaign template recipient =
     \<lparr>userId = Some uid, to = recipient, channel = c_channel campaign,
      message = content template, subject = t_subject template,
      templateId = c_templateId campaign, campaignId = Some (c_id campaign), metadata = None\<rparr>"

fun addInTurn :: "(payload \<Rightarrow> bool) \<Rightarrow> payload list \<Rightarrow> world \<Rightarrow> bool \<times> world" where
  "addInTurn queueDown [] w = (True, w)"
| "addInTurn queueDown (d # ds) w =
     (case addJob queueDown d w of
        None \<Rightarrow> (False, w)
      | Some w1 \<Rightarrow> addInTurn queueDown ds w1)"

definition markRunning :: "date \<Rightarrow> notificationCampaign \<Rightarrow> notificationCampaign" where
  "markRunning now c = c\<lparr>c_status := ''running'', startedAt := Some now\<rparr>"

definition startCampaign :: "(payload \<Rightarrow> bool) \<Rightarrow> date \<Rightarrow> int \<Rightarrow> int \<Rightarrow> world \<Rightarrow> response \<times> world" where
  "startCampaign queueDown now uid cid w =
     (case find (\<lambda>c. c_id c = cid \<and> c_userId c = uid) (campaigns w) of
        None \<Rightarrow> (NotFound ''Campaign not found'', w)
      | Some campaign \<Rightarrow>
          if c_status campaign \<noteq> ''draft'' \<and> c_status campaign \<noteq> ''scheduled''
          then (BadRequest ''Campaign cannot be started in current status'', w)
          else if \<not> truthy (c_templateId campaign)
          then (BadRequest ''Campaign requires a template to start'', w)
          else
            (case updateCampaign cid (markRunning now) w of
               Inl err \<Rightarrow> (InternalError, w)
             | Inr w1 \<Rightarrow>
                 (case find (\<lambda>t. Some (t_id t) = c_templateId campaign) (templates w) of
                    None \<Rightarrow>
                      if recipients campaign = [] then (CampaignStarted 0, w1)
                      else (InternalError, w1)
                  | Some template \<Rightarrow>
                      (case addInTurn queueDown
                              (map (campaignPayload uid campaign template) (recipients campaign)) w1 of
                         (True, w2) \<Rightarrow> (CampaignStarted (length (recipients campaign)), w2)
                       | (False, w2) \<Rightarrow> (InternalError, w2)))))"

section \<open>Observations\<close>

text \<open>The log rows a step added: the log is only ever appended to.\<close>

definition newLogs :: "world \<Rightarrow> world \<Rightarrow> notificationLog list" where
  "newLogs w w' = drop (length (notificationLogs w)) (notificationLogs w')"

text \<open>The rows a foreign key can name are the same in both worlds.\<close>

definition sameRefs :: "world \<Rightarrow> world \<Rightarrow> bool" where
  "sameRefs w w' =
     (users w' = users w \<and> map t_id (templates w') = map t_id (templates w) \<and>
      map c_id (campaigns w') = map c_id (campaigns w))"

text \<open>The campaign invariant of the design, on every campaign of the store.\<close>

definition countersWithinTotal :: "world \<Rightarrow> bool" where
  "countersWithinTotal w =
     list_all (\<lambda>c. successCount c + failureCount c \<le> totalRecipients c) (campaigns w)"

text \<open>
  What a promotion sweep does to a record, given the records \<open>ns\<close> it selected: the
  record whose id was selected gets the status the loop body gave it.
\<close>

definition promotedStatus :: "(payload \<Rightarrow> bool) \<Rightarrow> scheduledNotification \<Rightarrow> string" where
  "promotedStatus queueDown n = (if queueDown (payload.truncate n) then ''failed'' else ''queued'')"

definition promoted ::
  "(payload \<Rightarrow> bool) \<Rightarrow> scheduledNotification list \<Rightarrow> scheduledNotification \<Rightarrow> scheduledNotification" where
  "promoted queueDown ns m =
     (case find (\<lambda>n. sn_id n = sn_id m) ns of
        None \<Rightarrow> m
      | Some n \<Rightarrow> m\<lparr>sn_status := promotedStatus queueDown n\<rparr>)"

text \<open>No record with the id \<open>i\<close> is pending.\<close>

definition notPending :: "int \<Rightarrow> world \<Rightarrow> bool" where
  "notPending i w =
     list_all (\<lambda>m. sn_id m \<noteq> i \<or> sn_status m \<noteq> ''pending'') (scheduledNotifications w)"

text \<open>A run of promotion sweeps, one after the other, each with its queue and its time.\<close>

definition sweeps :: "((payload \<Rightarrow> bool) \<times> date) list \<Rightarrow> world \<Rightarrow> world" where
  "sweeps ss w = fold (\<lambda>(queueDown, now). promotionSweep queueDown now) ss w"

text \<open>
  What a completion sweep does to a campaign, given the running campaigns \<open>cps\<close> it
  read together with their counts of outstanding scheduled notifications.
\<close>

definition verdict ::
  "date \<Rightarrow> (notificationCampaign \<times> nat) list \<Rightarrow> notificationCampaign \<Rightarrow> notificationCampaign" where
  "verdict now cps c =
     (case find (\<lambda>cp. c_id (fst cp) = c_id c) cps of
        None \<Rightarrow> c
      | Some cp \<Rightarrow> if isFinished cp then markCompleted now c else c)"

section \<open>Concrete inputs\<close>

text \<open>
  A store with one user, one active email template and one draft campaign of a single
  recipient; environments in which the sender works, the mail server is down, the log
  cannot be written, or the sender works and the update of the success counter is
  rejected; a queue that takes every job.
\<close>

definition greeting :: notificationTemplate where
  "greeting = \<lparr>t_id = 1, t_userId = 1, t_channel = ''email'', t_subject = Some ''Welcome'',
     content = ''hi'', isActive = True\<rparr>"

definition launch :: notificationCampaign where
  "launch = \<lparr>c_id = 1, c_userId = 1, c_name = ''launch'', c_channel = ''email'',
     recipients = [''a@x.com''], c_templateId = Some 1, c_status = ''draft'',
     totalRecipients = 1, successCount = 0, failureCount = 0,
     startedAt = None, completedAt = None\<rparr>"

definition shop :: world where
  "shop = \<lparr>users = [1], campaigns = [launch], notificationLogs = [],
     scheduledNotifications = [], templates = [greeting], scheduledSeq = 0,
     queue = [], senderCalls = []\<rparr>"

definition delivered :: attemptEnv where
  "delivered = \<lparr>senderError = None, successUpdateDown = False, failureUpdateDown = False,
     logStoreDown = False, clock = 1000\<rparr>"

definition smtpDown :: attemptEnv where
  "smtpDown = \<lparr>senderError = Some ''connect ECONNREFUSED'', successUpdateDown = False,
     failureUpdateDown = False, logStoreDown = False, clock = 1000\<rparr>"

definition logDown :: attemptEnv where
  "logDown = \<lparr>senderError = None, successUpdateDown = False, failureUpdateDown = False,
     logStoreDown = True, clock = 1000\<rparr>"

definition counterDown :: attemptEnv where
  "counterDown = \<lparr>senderError = None, successUpdateDown = True, failureUpdateDown = False,
     logStoreDown = False, clock = 1000\<rparr>"

definition queueUp :: "payload \<Rightarrow> bool" where
  "queueUp d = False"

text \<open>The campaign started by its owner at time 500, and the job that start enqueues.\<close>

definition started :: world where
  "started = snd (startCampaign queueUp 500 1 1 shop)"

definition launchJob :: job where
  "launchJob = \<lparr>data = campaignPayload 1 launch greeting ''a@x.com'', opts = retryPolicy,
     attemptsMade = 0\<rparr>"

text \<open>The jobs of the two scenarios of the design: an email, and the channel "fax".\<close>

definition emailJob :: job where
  "emailJob = \<lparr>data = legacyPayload ''a@x.com'' ''email'' ''hi'', opts = retryPolicy,
     attemptsMade = 0\<rparr>"

definition faxJob :: job where
  "faxJob = \<lparr>data = legacyPayload ''a@x.com'' ''fax'' ''hi'', opts = retryPolicy,
     attemptsMade = 0\<rparr>"

text \<open>
  Four scheduled notifications at time 1000: one of user 1 that is due, one of user 1
  for later, one of user 2 that is due and whose enqueue will be rejected, and one
  without a user, from the first notify router, that was cancelled.
\<close>

definition reminder :: "int \<Rightarrow> int option \<Rightarrow> string \<Rightarrow> date \<Rightarrow> string \<Rightarrow> scheduledNotification" where
  "reminder i u t at st =
     \<lparr>userId = u, to = t, channel = ''sms'', message = ''hi'', subject = None,
      templateId = None, campaignId = None, metadata = None,
      sn_id = i, sendAt = at, sn_status = st, sn_createdAt = 0\<rparr>"

definition agenda :: world where
  "agenda = \<lparr>users = [1, 2], campaigns = [], notificationLogs = [],
     scheduledNotifications =
       [reminder 1 (Some 1) ''111'' 900 ''pending'', reminder 2 (Some 1) ''222'' 5000 ''pending'',
        reminder 3 (Some 2) ''333'' 1000 ''pending'', reminder 4 None ''444'' 800 ''cancelled''],
     templates = [], scheduledSeq = 4, queue = [], senderCalls = []\<rparr>"

definition lineBusy :: "payload \<Rightarrow> bool" where
  "lineBusy d = (to d = ''333'')"

text \<open>
  Four campaigns for the completion sweep: one running with all its recipients counted,
  one running with a recipient still to come, one running and fully counted but with a
  scheduled notification still queued, and one paused.
\<close>

definition drive :: "int \<Rightarrow> string \<Rightarrow> int \<Rightarrow> int \<Rightarrow> int \<Rightarrow> notificationCampaign" where
  "drive i st n ok ko =
     \<lparr>c_id = i, c_userId = 1, c_name = ''drive'', c_channel = ''sms'', recipients = [],
      c_templateId = None, c_status = st, totalRecipients = n, successCount = ok,
      failureCount = ko, startedAt = Some 0, completedAt = None\<rparr>"

definition season :: world where
  "season = \<lparr>users = [1], campaigns =
       [drive 1 ''running'' 3 2 1, drive 2 ''running'' 3 1 1, drive 3 ''running'' 1 1 0,
        drive 4 ''paused'' 1 1 0],
     notificationLogs = [],
     scheduledNotifications = [(reminder 1 (Some 1) ''111'' 900 ''queued'')\<lparr>campaignId := Some 3\<rparr>],
     templates = [], scheduledSeq = 1, queue = [], senderCalls = []\<rparr>"


text \<open>
  Three request bodies: an email with a \<^verbatim>\<open>sendAt\<close> that lies in the past at time
  1000, the same email without \<^verbatim>\<open>sendAt\<close>, and a bulk email to the given
  recipients.
\<close>

definition pastBody :: notifyBody where
  "pastBody = \<lparr>req_to = Valid ''a@x.com'', req_channel = Valid ''email'', req_message = Valid ''hi'',
     req_subject = Absent, req_sendAt = Valid 100, req_templateId = Absent, req_metadata = Absent\<rparr>"

definition plainBody :: notifyBody where
  "plainBody = pastBody\<lparr>req_sendAt := Absent\<rparr>"

definition bulk :: "string list \<Rightarrow> bulkBody" where
  "bulk rs = \<lparr>req_recipients = Valid rs, bulk_channel = Valid ''email'', bulk_message = Valid ''hi'',
     bulk_subject = Absent, bulk_templateId = Absent, bulk_sendAt = Absent\<rparr>"

section \<open>What one run of the processor changes\<close>

lemma sameRefs_refl [simp]: "sameRefs w w"
  by (simp add: sameRefs_def)

lemma sameRefs_trans: "sameRefs w w1 \<Longrightarrow> sameRefs w1 w2 \<Longrightarrow> sameRefs w w2"
  by (simp add: sameRefs_def)

lemma sameRefs_foreignKeysOk: "sameRefs w w' \<Longrightarrow> foreignKeysOk d w' = foreignKeysOk d w"
  by (simp add: sameRefs_def foreignKeysOk_def)

lemma sameRefs_logInsertRejected:
  "sameRefs w w' \<Longrightarrow> logInsertRejected e d w' = logInsertRejected e d w"
  by (simp add: logInsertRejected_def sameRefs_foreignKeysOk)

lemma dispatch_keeps:
  "dispatch e d w = (r, w1) \<Longrightarrow>
     sameRefs w w1 \<and> notificationLogs w1 = notificationLogs w \<and> campaigns w1 = campaigns w"
  by (auto simp: dispatch_def callSender_def Let_def sameRefs_def split: if_splits)

lemma dispatch_unknown:
  "channel d \<notin> set [''email'', ''sms'', ''in-app''] \<Longrightarrow>
     dispatch e d w = (Some (''Unknown channel: '' @ channel d), w)"
  by (simp add: dispatch_def)

lemma map_c_id_update:
  "(\<And>c. c_id (f c) = c_id c) \<Longrightarrow>
     map c_id (map (\<lambda>c. if c_id c = i then f c else c) cs) = map c_id cs"
  by (induction cs) simp_all

lemma updateCampaign_keeps:
  assumes "updateCampaign i f w = Inr w'" and "\<And>c. c_id (f c) = c_id c"
  shows "sameRefs w w' \<and> notificationLogs w' = notificationLogs w \<and>
         senderCalls w' = senderCalls w"
  using assms(1) map_c_id_update [of f i "campaigns w", OF assms(2)]
  by (auto simp: updateCampaign_def sameRefs_def split: if_splits)

lemma updateCampaign_missing:
  "updateCampaign i f w = Inl err \<Longrightarrow> i \<notin> set (map c_id (campaigns w))"
  by (auto simp: updateCampaign_def split: if_splits)

lemma updateCounter_keeps:
  assumes "updateCounter down i f w = Inr w'" and "\<And>c. c_id (f c) = c_id c"
  shows "sameRefs w w' \<and> notificationLogs w' = notificationLogs w \<and>
         senderCalls w' = senderCalls w"
proof -
  from assms(1) have "updateCampaign i f w = Inr w'"
    by (simp add: updateCounter_def split: if_splits)
  from updateCampaign_keeps [OF this assms(2)] show ?thesis .
qed

lemma updateCounter_rejected:
  "updateCounter down i f w = Inl err \<Longrightarrow> down \<or> i \<notin> set (map c_id (campaigns w))"
  by (auto simp: updateCounter_def dest: updateCampaign_missing split: if_splits)

lemma c_id_incSuccess: "c_id (incSuccess c) = c_id c"
  by (simp add: incSuccess_def)

lemma c_id_incFailure: "c_id (incFailure c) = c_id c"
  by (simp add: incFailure_def)

lemma tryBlock_keeps:
  "tryBlock e d w = (r, dAt, w1) \<Longrightarrow>
     sameRefs w w1 \<and> notificationLogs w1 = notificationLogs w"
  apply (cases "dispatch e d w")
  apply (frule dispatch_keeps)
  apply (auto simp: tryBlock_def split: option.splits if_splits sum.splits
      dest!: updateCounter_keeps [where f = incSuccess, OF _ c_id_incSuccess]
      intro: sameRefs_trans)
  done

text \<open>
  \<^verbatim>\<open>deliveredAt\<close> is set when the \<^verbatim>\<open>try\<close> block ends without an error. It is
  also set when the sender worked and the update of the counter was then rejected: by
  the store, or because the campaign row is missing.
\<close>

lemma tryBlock_deliveredAt:
  "tryBlock e d w = (r, dAt, w1) \<Longrightarrow>
     (r = None \<longrightarrow> dAt = Some (clock e)) \<and>
     (r \<noteq> None \<and> dAt \<noteq> None \<longrightarrow>
        successUpdateDown e \<or> \<not> refOk (campaignId d) (map c_id (campaigns w1)))"
  apply (cases "dispatch e d w")
  apply (frule dispatch_keeps)
  apply (auto simp: tryBlock_def refOk_def split: option.splits if_splits sum.splits
      dest!: updateCounter_rejected)
  done

lemma tryBlock_unknown:
  "channel d \<notin> set [''email'', ''sms'', ''in-app''] \<Longrightarrow>
     tryBlock e d w = (Some (''Unknown channel: '' @ channel d), None, w)"
  by (simp add: tryBlock_def dispatch_unknown)

lemma catchBlock_keeps:
  "catchBlock e d err w = (thrown, w2) \<Longrightarrow>
     sameRefs w w2 \<and> notificationLogs w2 = notificationLogs w \<and>
     senderCalls w2 = senderCalls w"
  by (auto simp: catchBlock_def split: option.splits if_splits sum.splits
      dest!: updateCounter_keeps [where f = incFailure, OF _ c_id_incFailure])

lemma newLogs_finallyBlock:
  "notificationLogs w2 = notificationLogs w \<Longrightarrow>
   newLogs w (finallyBlock e j st err dAt w2) =
     (if logInsertRejected e (data j) w2 then [] else [attemptLog e j st err dAt])"
  by (simp add: newLogs_def finallyBlock_def)

lemma senderCalls_finallyBlock:
  "senderCalls (finallyBlock e j st err dAt w) = senderCalls w"
  by (simp add: finallyBlock_def)

lemma campaigns_finallyBlock:
  "campaigns (finallyBlock e j st err dAt w) = campaigns w"
  by (simp add: finallyBlock_def)

lemma attemptLog_fields:
  "status (attemptLog e j st err dAt) = st"
  "error (attemptLog e j st err dAt) = err"
  "attempt (attemptLog e j st err dAt) = int (attemptsMade j) + 1"
  "deliveredAt (attemptLog e j st err dAt) = dAt"
  "payload.truncate (attemptLog e j st err dAt) = data j"
  by (simp_all add: attemptLog_def payload.defs notificationLog.defs)

text \<open>The log rows of one run: none when the insert is rejected, else the one row.\<close>

lemma processor_newLogs:
  "\<exists>st err dAt. st \<in> set [''success'', ''failed''] \<and>
     newLogs w (snd (processor e j w)) =
       (if logInsertRejected e (data j) w then [] else [attemptLog e j st err dAt])"
proof (cases "tryBlock e (data j) w")
  case (fields r dAt w1)
  note t = tryBlock_keeps [OF fields]
  show ?thesis
  proof (cases r)
    case None
    with fields t have "newLogs w (snd (processor e j w)) =
        (if logInsertRejected e (data j) w then [] else [attemptLog e j ''success'' None dAt])"
      by (auto simp: processor_def newLogs_finallyBlock sameRefs_logInsertRejected)
    then show ?thesis by auto
  next
    case (Some err)
    obtain thrown w2 where c: "catchBlock e (data j) err w1 = (thrown, w2)"
      by (cases "catchBlock e (data j) err w1")
    from catchBlock_keeps [OF c] t
    have "sameRefs w w2" and "notificationLogs w2 = notificationLogs w"
      by (auto intro: sameRefs_trans)
    with Some fields c have "newLogs w (snd (processor e j w)) =
        (if logInsertRejected e (data j) w then [] else [attemptLog e j ''failed'' (Some err) dAt])"
      by (auto simp: processor_def newLogs_finallyBlock sameRefs_logInsertRejected)
    then show ?thesis by auto
  qed
qed

section \<open>The campaign counters (claim C1)\<close>

text \<open>
  Claim C1: for every campaign, at every point in time, \<open>successCount + failureCount\<close>
  never exceeds \<open>totalRecipients\<close>, also when delivery attempts are retried.

  The worker adds one to \<open>failureCount\<close> in the \<^verbatim>\<open>catch\<close> block of every failed
  run, before it rethrows for the retry. The campaign \<open>launch\<close> has one recipient; its
  owner starts it, which enqueues one job with three attempts; the mail server is down
  at each of the three runs. The counters respect the invariant after the start and
  read 0 successes and 3 failures of 1 recipient after the third run. When the second
  run delivers the email instead, they read 1 success and 1 failure of 1 recipient.
\<close>

theorem retried_failures_exceed_total:
  "fst (startCampaign queueUp 500 1 1 shop) = CampaignStarted 1 \<and>
   queue started = [launchJob] \<and> countersWithinTotal started \<and>
   fst (runJob processor [smtpDown, smtpDown, smtpDown] launchJob started) =
     JobFailed ''connect ECONNREFUSED'' \<and>
   map (\<lambda>c. (successCount c, failureCount c, totalRecipients c))
     (campaigns (snd (runJob processor [smtpDown, smtpDown, smtpDown] launchJob started))) =
     [(0, 3, 1)] \<and>
   \<not> countersWithinTotal (snd (runJob processor [smtpDown, smtpDown, smtpDown] launchJob started)) \<and>
   fst (runJob processor [smtpDown, delivered] launchJob started) = JobCompleted \<and>
   map (\<lambda>c. (successCount c, failureCount c, totalRecipients c))
     (campaigns (snd (runJob processor [smtpDown, delivered] launchJob started))) = [(1, 1, 1)]"
  by code_simp

section \<open>An unknown channel (claim C2)\<close>

text \<open>
  Claim C2 as stated: a job whose channel is outside email, sms and in-app is fatal
  without retry, and leaves exactly one log row, failed, with attempt number 1.

  It fails on the job of the design's scenario, channel "fax", added with the three
  attempts of every enqueue: the processor rejects as for any failed delivery, the
  queue runs it three times, and the log gets three failed rows numbered 1, 2, 3.
\<close>

theorem unknown_channel_is_retried:
  "fst (runJob processor [delivered, delivered, delivered] faxJob shop) =
     JobFailed ''Unknown channel: fax'' \<and>
   map (\<lambda>l. (status l, attempt l))
     (newLogs shop (snd (runJob processor [delivered, delivered, delivered] faxJob shop))) =
     [(''failed'', 1), (''failed'', 2), (''failed'', 3)]"
  by code_simp

text \<open>
  Claim C2 as amended: for a job whose channel is outside email, sms and in-app, every
  run of the processor calls no channel sender and rejects, like a failed delivery, so
  that the retry policy of the job applies; when the log takes the row, the run adds
  exactly one row, with status failed, the error "Unknown channel: " followed by the
  channel, no \<open>deliveredAt\<close>, and the attempt number \<open>attemptsMade + 1\<close>, which is 1 at
  the first run.
\<close>

theorem unknown_channel_attempt:
  assumes "channel (data j) \<notin> set [''email'', ''sms'', ''in-app'']"
  shows "(\<exists>err. fst (processor e j w) = Thrown err) \<and>
         senderCalls (snd (processor e j w)) = senderCalls w \<and>
         (\<exists>l. status l = ''failed'' \<and> attempt l = int (attemptsMade j) + 1 \<and>
              deliveredAt l = None \<and>
              error l = Some (''Unknown channel: '' @ channel (data j)) \<and>
              newLogs w (snd (processor e j w)) =
                (if logInsertRejected e (data j) w then [] else [l]))"
proof -
  define err where "err = ''Unknown channel: '' @ channel (data j)"
  have t: "tryBlock e (data j) w = (Some err, None, w)"
    unfolding err_def by (rule tryBlock_unknown [OF assms])
  obtain thrown w2 where c: "catchBlock e (data j) err w = (thrown, w2)"
    by (cases "catchBlock e (data j) err w")
  from catchBlock_keeps [OF c]
  have k: "sameRefs w w2" "notificationLogs w2 = notificationLogs w" "senderCalls w2 = senderCalls w"
    by auto
  have p: "processor e j w = (Thrown thrown, finallyBlock e j ''failed'' (Some err) None w2)"
    by (simp add: processor_def t c)
  have "newLogs w (snd (processor e j w)) =
          (if logInsertRejected e (data j) w then []
           else [attemptLog e j ''failed'' (Some err) None])"
    using k by (simp add: p newLogs_finallyBlock sameRefs_logInsertRejected)
  then have "\<exists>l. status l = ''failed'' \<and> attempt l = int (attemptsMade j) + 1 \<and>
              deliveredAt l = None \<and> error l = Some err \<and>
              newLogs w (snd (processor e j w)) =
                (if logInsertRejected e (data j) w then [] else [l])"
    by (intro exI [of _ "attemptLog e j ''failed'' (Some err) None"]) (simp add: attemptLog_fields)
  with k show ?thesis
    unfolding err_def by (simp add: p senderCalls_finallyBlock)
qed

theorem unknown_channel_attempt_witness:
  "channel (data faxJob) \<notin> set [''email'', ''sms'', ''in-app''] \<and>
   (\<exists>err. fst (processor delivered faxJob shop) = Thrown err) \<and>
   senderCalls (snd (processor delivered faxJob shop)) = senderCalls shop \<and>
   (\<exists>l. status l = ''failed'' \<and> attempt l = 1 \<and> deliveredAt l = None \<and>
        newLogs shop (snd (processor delivered faxJob shop)) = [l])"
proof -
  have h: "channel (data faxJob) \<notin> set [''email'', ''sms'', ''in-app'']"
    by code_simp
  have a: "\<not> logInsertRejected delivered (data faxJob) shop"
    by code_simp
  have m: "attemptsMade faxJob = 0"
    by (simp add: faxJob_def)
  from unknown_channel_attempt [OF h, of delivered shop] a m h show ?thesis
    by auto
qed

section \<open>One log row per attempt (claim C3)\<close>

text \<open>
  Claim C3 as stated: every attempt, successful or not, writes exactly one log row,
  whose attempt number is the number of earlier attempts plus one.

  It fails when the store does not take the row: the email is sent, the job completes,
  and the attempt has no row, because the \<^verbatim>\<open>finally\<close> block catches the rejected
  insert and only prints it.
\<close>

theorem rejected_insert_leaves_no_row:
  "fst (processor logDown emailJob shop) = Completed \<and>
   senderCalls (snd (processor logDown emailJob shop)) = [SendEmail ''a@x.com'' ''hi'' None] \<and>
   newLogs shop (snd (processor logDown emailJob shop)) = []"
  by code_simp

text \<open>
  Claim C3 as amended: every run of the processor of the enhanced worker, whatever the
  outcome of the delivery, makes exactly one insert into the log, of a row that carries
  the payload of the job, the status success or failed and the attempt number
  \<open>attemptsMade + 1\<close>; the log gains exactly that row, or no row when the store
  rejects the insert.
\<close>

theorem one_log_insert_per_attempt:
  "\<exists>l. attempt l = int (attemptsMade j) + 1 \<and> payload.truncate l = data j \<and>
        status l \<in> set [''success'', ''failed''] \<and>
        newLogs w (snd (processor e j w)) =
          (if logInsertRejected e (data j) w then [] else [l])"
proof -
  from processor_newLogs [of w e j] obtain st err dAt where
    "st \<in> set [''success'', ''failed'']" and
    "newLogs w (snd (processor e j w)) =
       (if logInsertRejected e (data j) w then [] else [attemptLog e j st err dAt])"
    by blast
  then show ?thesis
    by (intro exI [of _ "attemptLog e j st err dAt"]) (simp add: attemptLog_fields)
qed

theorem one_log_insert_per_attempt_witness:
  "\<not> logInsertRejected delivered (data emailJob) shop \<and> logInsertRejected logDown (data emailJob) shop \<and>
   (\<exists>l. attempt l = 3 \<and> newLogs shop (snd (processor delivered (emailJob\<lparr>attemptsMade := 2\<rparr>) shop)) = [l]) \<and>
   newLogs shop (snd (processor logDown emailJob shop)) = []"
proof -
  have a: "\<not> logInsertRejected delivered (data emailJob) shop"
    by code_simp
  have b: "logInsertRejected logDown (data emailJob) shop"
    by code_simp
  from a one_log_insert_per_attempt [of "emailJob\<lparr>attemptsMade := 2\<rparr>" shop delivered]
  have "\<exists>l. attempt l = 3 \<and> newLogs shop (snd (processor delivered (emailJob\<lparr>attemptsMade := 2\<rparr>) shop)) = [l]"
    by auto
  moreover from b one_log_insert_per_attempt [of emailJob shop logDown]
  have "newLogs shop (snd (processor logDown emailJob shop)) = []"
    by auto
  ultimately show ?thesis using a b by simp
qed

section \<open>A failed log write (claim C4)\<close>

text \<open>
  In the enhanced worker the outcome of a run, the sender calls and the campaign
  counters are the same whether or not the log can be written.
\<close>

lemma dispatch_logStoreDown:
  "dispatch (e\<lparr>logStoreDown := b\<rparr>) d w = dispatch e d w"
  by (simp add: dispatch_def callSender_def)

lemma tryBlock_logStoreDown:
  "tryBlock (e\<lparr>logStoreDown := b\<rparr>) d w = tryBlock e d w"
  by (auto simp: tryBlock_def dispatch_logStoreDown split: prod.splits option.splits sum.splits)

lemma catchBlock_logStoreDown:
  "catchBlock (e\<lparr>logStoreDown := b\<rparr>) d err w = catchBlock e d err w"
  by (simp add: catchBlock_def split: option.splits)

lemma processor_ignores_log_failure:
  "fst (processor (e\<lparr>logStoreDown := b\<rparr>) j w) = fst (processor e j w) \<and>
   senderCalls (snd (processor (e\<lparr>logStoreDown := b\<rparr>) j w)) = senderCalls (snd (processor e j w)) \<and>
   campaigns (snd (processor (e\<lparr>logStoreDown := b\<rparr>) j w)) = campaigns (snd (processor e j w))"
  by (simp add: processor_def tryBlock_logStoreDown catchBlock_logStoreDown
      senderCalls_finallyBlock campaigns_finallyBlock
      split: prod.splits option.splits)

text \<open>
  Claim C4: a failed write of the log row does not change the outcome of the delivery,
  is not a failure of the job, and never causes a delivery that succeeded to be made
  again.

  The first worker awaits the insert in \<^verbatim>\<open>finally\<close> without a handler. The email
  of \<open>emailJob\<close> is sent, the insert is rejected, and the processor rejects with the
  error of the store although the same run completes when the log works; the queue
  runs the job again and the email is sent a second time.
\<close>

theorem legacy_log_failure_fails_job:
  "fst (legacyProcessor logDown emailJob shop) = Thrown logStoreError \<and>
   fst (legacyProcessor delivered emailJob shop) = Completed \<and>
   fst (runJob legacyProcessor [logDown, delivered] emailJob shop) = JobCompleted \<and>
   senderCalls (snd (runJob legacyProcessor [logDown, delivered] emailJob shop)) =
     [SendEmail ''a@x.com'' ''hi'' None, SendEmail ''a@x.com'' ''hi'' None]"
  by code_simp

section \<open>The delivery time of a log row (claim C9)\<close>

text \<open>
  What holds of every row the enhanced worker creates: a row with the status success
  carries the time read right after the sender returned; a row of a run whose sender
  rejected, or whose channel is unknown, carries no time; and when the store takes the
  update of the success counter, \<open>deliveredAt\<close> is set if and only if the status is
  success.
\<close>

lemma success_row_has_deliveredAt:
  assumes "l \<in> set (newLogs w (snd (processor e j w)))" and "status l = ''success''"
  shows "deliveredAt l = Some (clock e)"
proof (cases "tryBlock e (data j) w")
  case (fields r dAt w1)
  note t = tryBlock_keeps [OF fields]
  note d = tryBlock_deliveredAt [OF fields]
  show ?thesis
  proof (cases r)
    case None
    with fields t d assms show ?thesis
      by (auto simp: processor_def newLogs_finallyBlock attemptLog_fields split: if_splits)
  next
    case (Some err)
    obtain thrown w2 where c: "catchBlock e (data j) err w1 = (thrown, w2)"
      by (cases "catchBlock e (data j) err w1")
    from catchBlock_keeps [OF c] t have "notificationLogs w2 = notificationLogs w"
      by auto
    with Some fields c assms show ?thesis
      by (auto simp: processor_def newLogs_finallyBlock attemptLog_fields split: if_splits)
  qed
qed

lemma tryBlock_sender_rejected:
  "senderError e \<noteq> None \<or> channel d \<notin> set [''email'', ''sms'', ''in-app''] \<Longrightarrow>
     \<exists>err w1. tryBlock e d w = (Some err, None, w1)"
  by (auto simp: tryBlock_def dispatch_def callSender_def Let_def)

lemma undelivered_row_has_no_deliveredAt:
  assumes "l \<in> set (newLogs w (snd (processor e j w)))"
    and "senderError e \<noteq> None \<or> channel (data j) \<notin> set [''email'', ''sms'', ''in-app'']"
  shows "status l = ''failed'' \<and> deliveredAt l = None"
proof -
  from tryBlock_sender_rejected [OF assms(2)]
  obtain err w1 where f: "tryBlock e (data j) w = (Some err, None, w1)"
    by blast
  note t = tryBlock_keeps [OF f]
  obtain thrown w2 where c: "catchBlock e (data j) err w1 = (thrown, w2)"
    by (cases "catchBlock e (data j) err w1")
  from catchBlock_keeps [OF c] t have "notificationLogs w2 = notificationLogs w"
    by auto
  with f c assms(1) show ?thesis
    by (auto simp: processor_def newLogs_finallyBlock attemptLog_fields split: if_splits)
qed

lemma deliveredAt_iff_success_when_counter_updates:
  assumes "l \<in> set (newLogs w (snd (processor e j w)))" and "\<not> successUpdateDown e"
  shows "deliveredAt l = (if status l = ''success'' then Some (clock e) else None)"
proof (cases "tryBlock e (data j) w")
  case (fields r dAt w1)
  note t = tryBlock_keeps [OF fields]
  note d = tryBlock_deliveredAt [OF fields]
  show ?thesis
  proof (cases r)
    case None
    with fields t d assms show ?thesis
      by (auto simp: processor_def newLogs_finallyBlock attemptLog_fields split: if_splits)
  next
    case (Some err)
    obtain thrown w2 where c: "catchBlock e (data j) err w1 = (thrown, w2)"
      by (cases "catchBlock e (data j) err w1")
    from catchBlock_keeps [OF c] t
    have k: "sameRefs w1 w2" "notificationLogs w2 = notificationLogs w"
      by auto
    from k(1) have "map c_id (campaigns w2) = map c_id (campaigns w1)"
      by (simp add: sameRefs_def)
    with Some fields c assms k d show ?thesis
      by (auto simp: processor_def newLogs_finallyBlock attemptLog_fields
          logInsertRejected_def foreignKeysOk_def split: if_splits)
  qed
qed

text \<open>
  Claim C9: in every log row the enhanced worker creates, \<open>deliveredAt\<close> is set if and
  only if the status is success, and it is null in every failed row.

  The worker sets \<open>deliveredAt\<close> (line 47) before it awaits the update of the success
  counter (line 54), inside the same \<^verbatim>\<open>try\<close>. The job of the started campaign
  \<open>launch\<close> is run; the email is sent; the store rejects the update of the counter on
  the existing row. The \<^verbatim>\<open>catch\<close> block sets the status to failed, counts a
  failure and rethrows, and the \<^verbatim>\<open>finally\<close> block inserts a row with the status
  failed and \<open>deliveredAt\<close> set. The queue then runs the delivered job again, and the
  email is sent a second time.
\<close>

theorem failed_row_with_deliveredAt:
  "fst (processor counterDown launchJob started) = Thrown counterStoreError \<and>
   senderCalls (snd (processor counterDown launchJob started)) =
     [SendEmail ''a@x.com'' ''hi'' (Some ''Welcome'')] \<and>
   map (\<lambda>l. (status l, error l, attempt l, deliveredAt l))
     (newLogs started (snd (processor counterDown launchJob started))) =
     [(''failed'', Some counterStoreError, 1, Some 1000)] \<and>
   map (\<lambda>c. (successCount c, failureCount c, totalRecipients c))
     (campaigns (snd (processor counterDown launchJob started))) = [(0, 1, 1)] \<and>
   fst (runJob processor [counterDown, delivered] launchJob started) = JobCompleted \<and>
   senderCalls (snd (runJob processor [counterDown, delivered] launchJob started)) =
     [SendEmail ''a@x.com'' ''hi'' (Some ''Welcome''),
      SendEmail ''a@x.com'' ''hi'' (Some ''Welcome'')] \<and>
   map (\<lambda>l. (status l, attempt l, deliveredAt l))
     (newLogs started (snd (runJob processor [counterDown, delivered] launchJob started))) =
     [(''failed'', 1, Some 1000), (''success'', 2, Some 1000)]"
  by code_simp

section \<open>Immediate or scheduled (claim C5)\<close>

text \<open>
  Claim C5 as stated: a submission whose \<^verbatim>\<open>sendAt\<close> is absent or in the past is
  enqueued at once and answered with status queued; otherwise a scheduled notification
  is created and the answer is status scheduled with its id.

  It fails for a \<^verbatim>\<open>sendAt\<close> in the past: the handler tests only whether
  \<^verbatim>\<open>sendAt\<close> is there. At time 1000 a submission for time 100 is answered
  scheduled, nothing is enqueued, and a pending record for time 100 is created.
\<close>

theorem past_sendAt_is_scheduled:
  "fst (postNotify queueUp 1000 1 pastBody shop) = Scheduled 100 1 \<and>
   queue (snd (postNotify queueUp 1000 1 pastBody shop)) = [] \<and>
   map (\<lambda>n. (sn_id n, sendAt n, sn_status n))
     (scheduledNotifications (snd (postNotify queueUp 1000 1 pastBody shop))) = [(1, 100, ''pending'')]"
  by code_simp

text \<open>
  Claim C5 as amended: for every submission the enhanced notify route accepts (valid
  body, template check passed, store and queue take the write), if \<^verbatim>\<open>sendAt\<close> is
  absent the job is enqueued at once, with 3 attempts and exponential backoff from 10
  seconds, and the answer is status queued; if \<^verbatim>\<open>sendAt\<close> is present, in the
  past or not, a scheduled notification with that time and the status pending is
  created, nothing is enqueued, and the answer is status scheduled with the id of the
  record.
\<close>

theorem submission_branches_on_presence:
  assumes "validateNotify b = []"
    and "req_to b = Valid t" and "req_channel b = Valid c" and "req_message b = Valid m"
    and "checkTemplate (fieldValue (req_templateId b)) uid c w = None"
    and "foreignKeysOk (notifyPayload uid b t c m) w"
    and "\<not> queueDown (notifyPayload uid b t c m)"
  shows "(case req_sendAt b of
            Valid at \<Rightarrow>
              (\<exists>n. postNotify queueDown now uid b w =
                     (Scheduled at (sn_id n),
                      w\<lparr>scheduledNotifications := scheduledNotifications w @ [n],
                        scheduledSeq := scheduledSeq w + 1\<rparr>) \<and>
                   payload.truncate n = notifyPayload uid b t c m \<and>
                   sendAt n = at \<and> sn_status n = ''pending'' \<and> sn_id n = scheduledSeq w + 1)
          | _ \<Rightarrow>
              postNotify queueDown now uid b w =
                (Queued,
                 w\<lparr>queue := queue w @
                      [\<lparr>data = notifyPayload uid b t c m,
                        opts = \<lparr>attempts = 3, backoffType = ''exponential'', backoffDelay = 10000\<rparr>,
                        attemptsMade = 0\<rparr>]\<rparr>))"
proof (cases "req_sendAt b")
  case (Valid at)
  let ?n = "payload.extend (notifyPayload uid b t c m)
              (scheduledNotification.fields (scheduledSeq w + 1) at ''pending'' now)"
  have "postNotify queueDown now uid b w =
          (Scheduled at (sn_id ?n),
           w\<lparr>scheduledNotifications := scheduledNotifications w @ [?n],
             scheduledSeq := scheduledSeq w + 1\<rparr>)"
    using assms Valid
    by (simp add: postNotify_def createScheduled_def Let_def payload.defs scheduledNotification.defs)
  moreover have "payload.truncate ?n = notifyPayload uid b t c m \<and> sendAt ?n = at \<and>
      sn_status ?n = ''pending'' \<and> sn_id ?n = scheduledSeq w + 1"
    by (simp add: payload.defs scheduledNotification.defs)
  ultimately show ?thesis
    unfolding Valid field.case by (intro exI [of _ ?n] conjI) simp_all
next
  case Absent
  with assms show ?thesis
    by (simp add: postNotify_def addJob_def retryPolicy_def)
next
  case Malformed
  with assms show ?thesis
    by (simp add: postNotify_def addJob_def retryPolicy_def)
qed

theorem submission_branches_on_presence_witness:
  "fst (postNotify queueUp 1000 1 pastBody shop) = Scheduled 100 1 \<and>
   fst (postNotify queueUp 1000 1 plainBody shop) = Queued \<and>
   map (\<lambda>j. (to (data j), attempts (opts j))) (queue (snd (postNotify queueUp 1000 1 plainBody shop))) =
     [(''a@x.com'', 3)]"
proof -
  have v: "validateNotify pastBody = []" "validateNotify plainBody = []"
    by (simp_all add: validateNotify_def pastBody_def plainBody_def nonEmptyString_def
        isInChannels_def optionalField_def)
  have f: "req_to pastBody = Valid ''a@x.com''" "req_channel pastBody = Valid ''email''"
    "req_message pastBody = Valid ''hi''" "req_to plainBody = Valid ''a@x.com''"
    "req_channel plainBody = Valid ''email''" "req_message plainBody = Valid ''hi''"
    by (simp_all add: pastBody_def plainBody_def)
  have c: "checkTemplate (fieldValue (req_templateId pastBody)) 1 ''email'' shop = None"
    "checkTemplate (fieldValue (req_templateId plainBody)) 1 ''email'' shop = None"
    by (simp_all add: checkTemplate_def fieldValue_def truthy_def pastBody_def plainBody_def)
  have k: "foreignKeysOk (notifyPayload 1 pastBody ''a@x.com'' ''email'' ''hi'') shop"
    "foreignKeysOk (notifyPayload 1 plainBody ''a@x.com'' ''email'' ''hi'') shop"
    by (simp_all add: foreignKeysOk_def refOk_def notifyPayload_def fieldValue_def pastBody_def
        plainBody_def shop_def)
  have q: "\<not> queueUp (notifyPayload 1 pastBody ''a@x.com'' ''email'' ''hi'')"
    "\<not> queueUp (notifyPayload 1 plainBody ''a@x.com'' ''email'' ''hi'')"
    by (simp_all add: queueUp_def)
  have s: "req_sendAt pastBody = Valid 100" "req_sendAt plainBody = Absent"
    by (simp_all add: pastBody_def plainBody_def)
  from submission_branches_on_presence [where queueDown = queueUp and now = 1000, OF v(1) f(1,2,3) c(1) k(1) q(1)]
  have a: "fst (postNotify queueUp 1000 1 pastBody shop) = Scheduled 100 1"
    by (auto simp: s shop_def)
  from submission_branches_on_presence [where queueDown = queueUp and now = 1000, OF v(2) f(4,5,6) c(2) k(2) q(2)]
  have b: "postNotify queueUp 1000 1 plainBody shop =
                (Queued,
                 shop\<lparr>queue := queue shop @
                      [\<lparr>data = notifyPayload 1 plainBody ''a@x.com'' ''email'' ''hi'',
                        opts = \<lparr>attempts = 3, backoffType = ''exponential'', backoffDelay = 10000\<rparr>,
                        attemptsMade = 0\<rparr>]\<rparr>)"
    by (simp add: s)
  have "map (\<lambda>j. (to (data j), attempts (opts j))) (queue (snd (postNotify queueUp 1000 1 plainBody shop))) =
     [(''a@x.com'', 3)]"
    unfolding b by (simp add: shop_def notifyPayload_def)
  with a b show ?thesis by simp
qed

text \<open>
  The first notify router branches in the same way; its answer to a scheduled
  submission carries no id.
\<close>

lemma legacy_route_scheduled_without_id:
  "fst (legacyPostNotify queueUp 1000 pastBody shop) = ScheduledNoId 100 \<and>
   queue (snd (legacyPostNotify queueUp 1000 pastBody shop)) = [] \<and>
   fst (legacyPostNotify queueUp 1000 plainBody shop) = Queued"
  by code_simp

section \<open>The promotion sweep (claim C6)\<close>

lemma promoted_absent:
  assumes "sn_id m \<notin> sn_id ` set ns"
  shows "promoted qd ns m = m"
proof -
  from assms have "\<not> (\<exists>x. x \<in> set ns \<and> sn_id x = sn_id m)"
    by (metis imageI)
  then have "find (\<lambda>n. sn_id n = sn_id m) ns = None"
    by (simp add: find_None_iff)
  then show ?thesis by (simp add: promoted_def)
qed

lemma promoted_Cons:
  "promoted qd (n # ns) m =
     (if sn_id n = sn_id m then m\<lparr>sn_status := promotedStatus qd n\<rparr> else promoted qd ns m)"
  by (simp add: promoted_def)

lemma map_sn_id_update:
  "map sn_id (map (\<lambda>m. if sn_id m = i then m\<lparr>sn_status := s\<rparr> else m) xs) = map sn_id xs"
  by (induction xs) simp_all

lemma promote_present:
  assumes "sn_id n \<in> sn_id ` set (scheduledNotifications w)"
  shows "promote qd n w =
     (None, w\<lparr>queue := queue w @ (if qd (payload.truncate n) then [] else [jobOf n]),
              scheduledNotifications :=
                map (\<lambda>m. if sn_id m = sn_id n then m\<lparr>sn_status := promotedStatus qd n\<rparr> else m)
                  (scheduledNotifications w)\<rparr>)"
  using assms by (simp add: promote_def updateScheduled_def promotedStatus_def)

lemma promoteAll_eq:
  "distinct (map sn_id ns) \<Longrightarrow>
   sn_id ` set ns \<subseteq> sn_id ` set (scheduledNotifications w) \<Longrightarrow>
   promoteAll qd ns w =
     w\<lparr>queue := queue w @ map jobOf (filter (\<lambda>n. \<not> qd (payload.truncate n)) ns),
       scheduledNotifications := map (promoted qd ns) (scheduledNotifications w)\<rparr>"
proof (induction ns arbitrary: w)
  case Nil
  have "map (promoted qd []) (scheduledNotifications w) = scheduledNotifications w"
    by (simp add: promoted_def cong: map_cong)
  then show ?case by simp
next
  case (Cons n ns)
  let ?upd = "\<lambda>m. if sn_id m = sn_id n then m\<lparr>sn_status := promotedStatus qd n\<rparr> else m"
  let ?w1 = "w\<lparr>queue := queue w @ (if qd (payload.truncate n) then [] else [jobOf n]),
              scheduledNotifications := map ?upd (scheduledNotifications w)\<rparr>"
  from Cons.prems(2) have "sn_id n \<in> sn_id ` set (scheduledNotifications w)" by simp
  from promote_present [OF this] have p: "promote qd n w = (None, ?w1)" .
  have notin: "sn_id n \<notin> sn_id ` set ns" using Cons.prems(1) by simp
  have "sn_id ` set (map ?upd (scheduledNotifications w)) = sn_id ` set (scheduledNotifications w)"
    by (metis list.set_map map_sn_id_update)
  with Cons.prems(2) have sub: "sn_id ` set ns \<subseteq> sn_id ` set (scheduledNotifications ?w1)"
    by auto
  from Cons.prems(1) have "distinct (map sn_id ns)" by simp
  from Cons.IH [OF this sub]
  have ih: "promoteAll qd ns ?w1 =
     ?w1\<lparr>queue := queue ?w1 @ map jobOf (filter (\<lambda>n. \<not> qd (payload.truncate n)) ns),
         scheduledNotifications := map (promoted qd ns) (scheduledNotifications ?w1)\<rparr>" .
  have "promoted qd ns (?upd m) = promoted qd (n # ns) m" for m
  proof (cases "sn_id m = sn_id n")
    case True
    with notin have "sn_id (m\<lparr>sn_status := promotedStatus qd n\<rparr>) \<notin> sn_id ` set ns"
      by simp
    from promoted_absent [OF this] True show ?thesis
      by (simp add: promoted_Cons)
  next
    case False
    then show ?thesis by (auto simp: promoted_Cons)
  qed
  then have "map (promoted qd ns) (map ?upd (scheduledNotifications w)) =
             map (promoted qd (n # ns)) (scheduledNotifications w)"
    by simp
  with ih p show ?case by simp
qed

lemma find_by_id:
  "distinct (map sn_id xs) \<Longrightarrow> m \<in> set xs \<Longrightarrow>
     find (\<lambda>n. sn_id n = sn_id m) (filter P xs) = (if P m then Some m else None)"
proof (induction xs)
  case Nil then show ?case by simp
next
  case (Cons a xs)
  then show ?case by (auto simp: find_None_iff image_iff)
qed

lemma promoted_due:
  assumes "distinct (map sn_id (scheduledNotifications w))" and "m \<in> set (scheduledNotifications w)"
  shows "promoted qd (dueNotifications now w) m =
     (if sendAt m \<le> now \<and> sn_status m = ''pending''
      then m\<lparr>sn_status := (if qd (payload.truncate m) then ''failed'' else ''queued'')\<rparr> else m)"
  unfolding dueNotifications_def promoted_def
  by (simp add: find_by_id [OF assms] promotedStatus_def)

lemma promotionSweep_eq:
  assumes "distinct (map sn_id (scheduledNotifications w))"
  shows "promotionSweep qd now w =
     w\<lparr>queue := queue w @ map jobOf (filter (\<lambda>n. \<not> qd (payload.truncate n)) (dueNotifications now w)),
       scheduledNotifications :=
         map (\<lambda>n. if sendAt n \<le> now \<and> sn_status n = ''pending''
                  then n\<lparr>sn_status := (if qd (payload.truncate n) then ''failed'' else ''queued'')\<rparr>
                  else n)
           (scheduledNotifications w)\<rparr>"
proof -
  have d: "distinct (map sn_id (dueNotifications now w))"
    using assms by (simp add: dueNotifications_def distinct_map_filter)
  have s: "sn_id ` set (dueNotifications now w) \<subseteq> sn_id ` set (scheduledNotifications w)"
    by (auto simp: dueNotifications_def)
  have "map (promoted qd (dueNotifications now w)) (scheduledNotifications w) =
        map (\<lambda>n. if sendAt n \<le> now \<and> sn_status n = ''pending''
                  then n\<lparr>sn_status := (if qd (payload.truncate n) then ''failed'' else ''queued'')\<rparr>
                  else n) (scheduledNotifications w)"
    using promoted_due [OF assms] by (simp cong: map_cong)
  with promoteAll_eq [OF d s, of qd] show ?thesis
    by (simp add: promotionSweep_def)
qed

lemma promotionSweep_ids:
  assumes "distinct (map sn_id (scheduledNotifications w))"
  shows "map sn_id (scheduledNotifications (promotionSweep qd now w)) = map sn_id (scheduledNotifications w)"
  by (simp add: promotionSweep_eq [OF assms] o_def cong: map_cong)

lemma promotionSweep_notPending:
  assumes "distinct (map sn_id (scheduledNotifications w))" and "notPending i w"
  shows "notPending i (promotionSweep qd now w)"
  using assms(2) by (auto simp: promotionSweep_eq [OF assms(1)] notPending_def list_all_iff split: if_splits)

lemma promotionSweep_due_notPending:
  assumes "distinct (map sn_id (scheduledNotifications w))" and "n \<in> set (dueNotifications now w)"
  shows "notPending (sn_id n) (promotionSweep qd now w)"
proof -
  have "m = n" if "m \<in> set (scheduledNotifications w)" "sn_id m = sn_id n" for m
    using that assms by (auto simp: dueNotifications_def distinct_map inj_on_def)
  with assms(2) show ?thesis
    by (auto simp: promotionSweep_eq [OF assms(1)] notPending_def list_all_iff dueNotifications_def
        split: if_splits)
qed

lemma sweeps_notPending:
  "distinct (map sn_id (scheduledNotifications w)) \<Longrightarrow> notPending i w \<Longrightarrow>
   notPending i (sweeps ss w)"
  unfolding sweeps_def
proof (induction ss arbitrary: w)
  case Nil then show ?case by simp
next
  case (Cons s ss)
  obtain qd now where s: "s = (qd, now)" by (cases s)
  from Cons.prems have "distinct (map sn_id (scheduledNotifications (promotionSweep qd now w)))"
    by (simp add: promotionSweep_ids)
  moreover from Cons.prems have "notPending i (promotionSweep qd now w)"
    by (rule promotionSweep_notPending)
  ultimately show ?case using Cons.IH s by simp
qed

lemma notPending_not_due:
  "notPending i w \<Longrightarrow> i \<notin> sn_id ` set (dueNotifications now w)"
  by (auto simp: notPending_def list_all_iff dueNotifications_def)

text \<open>
  Claim C6: a promotion sweep selects exactly the scheduled notifications that are
  pending and whose time has come; for each it enqueues a job with the same payload, 3
  attempts and exponential backoff from 10 seconds, and sets the record to queued, or
  to failed when the enqueue is rejected; no record is promoted twice: the id of a
  selected record is not selected again by any sweep that follows, whatever its time.
  The ids of the records are distinct, being the primary key of the table.
\<close>

theorem promotion_sweep:
  assumes "distinct (map sn_id (scheduledNotifications w))"
  shows "set (dueNotifications now w) =
           {n \<in> set (scheduledNotifications w). sn_status n = ''pending'' \<and> sendAt n \<le> now} \<and>
         promotionSweep queueDown now w =
           w\<lparr>queue := queue w @
                 map (\<lambda>n. \<lparr>data = payload.truncate n,
                            opts = \<lparr>attempts = 3, backoffType = ''exponential'', backoffDelay = 10000\<rparr>,
                            attemptsMade = 0\<rparr>)
                   (filter (\<lambda>n. \<not> queueDown (payload.truncate n)) (dueNotifications now w)),
             scheduledNotifications :=
               map (\<lambda>n. if sendAt n \<le> now \<and> sn_status n = ''pending''
                        then n\<lparr>sn_status :=
                               (if queueDown (payload.truncate n) then ''failed'' else ''queued'')\<rparr>
                        else n)
                 (scheduledNotifications w)\<rparr> \<and>
         (\<forall>n \<in> set (dueNotifications now w).
            sn_id n \<notin> sn_id ` set (dueNotifications later (sweeps ss (promotionSweep queueDown now w))))"
proof -
  have a: "set (dueNotifications now w) =
           {n \<in> set (scheduledNotifications w). sn_status n = ''pending'' \<and> sendAt n \<le> now}"
    by (auto simp: dueNotifications_def)
  have j: "jobOf = (\<lambda>n. \<lparr>data = payload.truncate n,
                            opts = \<lparr>attempts = 3, backoffType = ''exponential'', backoffDelay = 10000\<rparr>,
                            attemptsMade = 0\<rparr>)"
    by (simp add: fun_eq_iff jobOf_def retryPolicy_def)
  note b = promotionSweep_eq [OF assms, of queueDown now, unfolded j]
  have c: "sn_id n \<notin> sn_id ` set (dueNotifications later (sweeps ss (promotionSweep queueDown now w)))"
    if "n \<in> set (dueNotifications now w)" for n
  proof -
    have "distinct (map sn_id (scheduledNotifications (promotionSweep queueDown now w)))"
      using assms by (simp add: promotionSweep_ids)
    moreover have "notPending (sn_id n) (promotionSweep queueDown now w)"
      using assms that by (rule promotionSweep_due_notPending)
    ultimately have "notPending (sn_id n) (sweeps ss (promotionSweep queueDown now w))"
      by (rule sweeps_notPending)
    then show ?thesis by (rule notPending_not_due)
  qed
  from a b c show ?thesis by blast
qed

theorem promotion_sweep_witness:
  "distinct (map sn_id (scheduledNotifications agenda)) \<and>
   map sn_id (dueNotifications 1000 agenda) = [1, 3] \<and>
   map (\<lambda>j. (to (data j), attempts (opts j), backoffType (opts j), backoffDelay (opts j)))
     (queue (promotionSweep lineBusy 1000 agenda)) = [(''111'', 3, ''exponential'', 10000)] \<and>
   map sn_status (scheduledNotifications (promotionSweep lineBusy 1000 agenda)) =
     [''queued'', ''pending'', ''failed'', ''cancelled''] \<and>
   1 \<notin> sn_id ` set (dueNotifications 6000 (sweeps [(queueUp, 2000), (queueUp, 6000)] (promotionSweep lineBusy 1000 agenda)))"
proof -
  have d: "distinct (map sn_id (scheduledNotifications agenda))"
    by (simp add: agenda_def reminder_def)
  have due: "dueNotifications 1000 agenda =
      [reminder 1 (Some 1) ''111'' 900 ''pending'', reminder 3 (Some 2) ''333'' 1000 ''pending'']"
    by (simp add: dueNotifications_def agenda_def reminder_def)
  note t = promotion_sweep [OF d, of 1000 lineBusy 6000 "[(queueUp, 2000), (queueUp, 6000)]"]
  from t have e: "promotionSweep lineBusy 1000 agenda =
           agenda\<lparr>queue := queue agenda @
                 map (\<lambda>n. \<lparr>data = payload.truncate n,
                            opts = \<lparr>attempts = 3, backoffType = ''exponential'', backoffDelay = 10000\<rparr>,
                            attemptsMade = 0\<rparr>)
                   (filter (\<lambda>n. \<not> lineBusy (payload.truncate n)) (dueNotifications 1000 agenda)),
             scheduledNotifications :=
               map (\<lambda>n. if sendAt n \<le> 1000 \<and> sn_status n = ''pending''
                        then n\<lparr>sn_status :=
                               (if lineBusy (payload.truncate n) then ''failed'' else ''queued'')\<rparr>
                        else n)
                 (scheduledNotifications agenda)\<rparr>"
    by blast
  from t have n: "\<forall>n \<in> set (dueNotifications 1000 agenda).
            sn_id n \<notin> sn_id ` set (dueNotifications 6000 (sweeps [(queueUp, 2000), (queueUp, 6000)] (promotionSweep lineBusy 1000 agenda)))"
    by blast
  have q: "map (\<lambda>j. (to (data j), attempts (opts j), backoffType (opts j), backoffDelay (opts j)))
     (queue (promotionSweep lineBusy 1000 agenda)) = [(''111'', 3, ''exponential'', 10000)]"
    unfolding e due by (simp add: agenda_def reminder_def lineBusy_def payload.defs)
  have s: "map sn_status (scheduledNotifications (promotionSweep lineBusy 1000 agenda)) =
     [''queued'', ''pending'', ''failed'', ''cancelled'']"
    unfolding e by (simp add: agenda_def reminder_def lineBusy_def payload.defs)
  from n have "1 \<notin> sn_id ` set (dueNotifications 6000 (sweeps [(queueUp, 2000), (queueUp, 6000)] (promotionSweep lineBusy 1000 agenda)))"
    unfolding due by (simp add: reminder_def)
  with d due q s show ?thesis by (simp add: reminder_def)
qed

section \<open>The completion sweep (claim C7)\<close>

lemma c_id_markCompleted: "c_id (markCompleted now c) = c_id c"
  by (simp add: markCompleted_def)

lemma verdict_Nil: "verdict now [] c = c"
  by (simp add: verdict_def)

lemma verdict_absent:
  assumes "c_id c \<notin> (\<lambda>cp. c_id (fst cp)) ` set cps"
  shows "verdict now cps c = c"
proof -
  from assms have "find (\<lambda>cp. c_id (fst cp) = c_id c) cps = None"
    by (force simp: find_None_iff)
  then show ?thesis by (simp add: verdict_def)
qed

lemma verdict_Cons:
  "verdict now (cp # cps) c =
     (if c_id (fst cp) = c_id c then (if isFinished cp then markCompleted now c else c)
      else verdict now cps c)"
  by (simp add: verdict_def)

lemma completeAll_campaigns:
  "distinct (map (\<lambda>cp. c_id (fst cp)) cps) \<Longrightarrow>
   (\<lambda>cp. c_id (fst cp)) ` set cps \<subseteq> c_id ` set (campaigns w) \<Longrightarrow>
   completeAll now cps w = w\<lparr>campaigns := map (verdict now cps) (campaigns w)\<rparr>"
proof (induction cps arbitrary: w)
  case Nil
  have "map (verdict now []) (campaigns w) = campaigns w"
    by (simp add: verdict_Nil cong: map_cong)
  then show ?case by simp
next
  case (Cons cp cps)
  let ?i = "c_id (fst cp)"
  let ?upd = "\<lambda>c. if c_id c = ?i then markCompleted now c else c"
  have notin: "?i \<notin> (\<lambda>cp. c_id (fst cp)) ` set cps" using Cons.prems(1) by auto
  show ?case
  proof (cases "isFinished cp")
    case True
    from Cons.prems(2) have ex: "?i \<in> c_id ` set (campaigns w)" by auto
    let ?w1 = "w\<lparr>campaigns := map ?upd (campaigns w)\<rparr>"
    have u: "updateCampaign ?i (markCompleted now) w = Inr ?w1"
      using ex by (simp add: updateCampaign_def)
    have "map c_id (map ?upd (campaigns w)) = map c_id (campaigns w)"
      by (rule map_c_id_update) (rule c_id_markCompleted)
    then have "c_id ` set (map ?upd (campaigns w)) = c_id ` set (campaigns w)"
      by (metis list.set_map)
    with Cons.prems(2) have sub: "(\<lambda>cp. c_id (fst cp)) ` set cps \<subseteq> c_id ` set (campaigns ?w1)"
      by auto
    from Cons.prems(1) have "distinct (map (\<lambda>cp. c_id (fst cp)) cps)"
      by simp
    from Cons.IH [OF this sub]
    have ih: "completeAll now cps ?w1 = ?w1\<lparr>campaigns := map (verdict now cps) (campaigns ?w1)\<rparr>" .
    have "verdict now cps (?upd c) = verdict now (cp # cps) c" for c
    proof (cases "c_id c = ?i")
      case same: True
      with notin have "c_id (markCompleted now c) \<notin> (\<lambda>cp. c_id (fst cp)) ` set cps"
        by (simp add: c_id_markCompleted)
      from verdict_absent [OF this] same True show ?thesis
        by (simp add: verdict_Cons)
    next
      case False
      then show ?thesis by (auto simp: verdict_Cons)
    qed
    then have "map (verdict now cps) (map ?upd (campaigns w)) = map (verdict now (cp # cps)) (campaigns w)"
      by simp
    with ih u True show ?thesis by simp
  next
    case False
    from Cons.prems have ih: "completeAll now cps w = w\<lparr>campaigns := map (verdict now cps) (campaigns w)\<rparr>"
      by (intro Cons.IH) auto
    have "verdict now cps c = verdict now (cp # cps) c" for c
    proof (cases "c_id c = ?i")
      case same: True
      with notin have "c_id c \<notin> (\<lambda>cp. c_id (fst cp)) ` set cps"
        by simp
      from verdict_absent [OF this] same False show ?thesis
        by (simp add: verdict_Cons)
    next
      case other: False
      then show ?thesis by (auto simp: verdict_Cons)
    qed
    then have "map (verdict now cps) (campaigns w) = map (verdict now (cp # cps)) (campaigns w)"
      by simp
    with ih False show ?thesis by simp
  qed
qed

lemma find_by_key:
  "distinct (map k xs) \<Longrightarrow> x \<in> set xs \<Longrightarrow>
     find (\<lambda>y. k (fst y) = k x) (map (\<lambda>c. (c, g c)) (filter P xs)) =
       (if P x then Some (x, g x) else None)"
proof (induction xs)
  case Nil then show ?case by simp
next
  case (Cons a xs)
  then show ?case by (auto simp: find_None_iff image_iff)
qed

lemma verdict_running:
  assumes "distinct (map c_id (campaigns w))" and "c \<in> set (campaigns w)"
  shows "verdict now (runningCampaigns w) c =
     (if c_status c = ''running'' \<and> pendingCount w c = 0 \<and>
         successCount c + failureCount c \<ge> totalRecipients c
      then c\<lparr>c_status := ''completed'', completedAt := Some now\<rparr> else c)"
proof -
  have "find (\<lambda>cp. c_id (fst cp) = c_id c) (runningCampaigns w) =
          (if c_status c = ''running'' then Some (c, pendingCount w c) else None)"
    unfolding runningCampaigns_def by (rule find_by_key [OF assms])
  then show ?thesis
    by (simp add: verdict_def isFinished_def markCompleted_def)
qed

lemma completionSweep_eq:
  assumes "distinct (map c_id (campaigns w))"
  shows "completionSweep now w =
     w\<lparr>campaigns :=
         map (\<lambda>c. if c_status c = ''running'' \<and> pendingCount w c = 0 \<and>
                     successCount c + failureCount c \<ge> totalRecipients c
                  then c\<lparr>c_status := ''completed'', completedAt := Some now\<rparr> else c)
           (campaigns w)\<rparr>"
proof -
  have d: "distinct (map (\<lambda>cp. c_id (fst cp)) (runningCampaigns w))"
    using assms by (simp add: runningCampaigns_def o_def distinct_map_filter)
  have s: "(\<lambda>cp. c_id (fst cp)) ` set (runningCampaigns w) \<subseteq> c_id ` set (campaigns w)"
    by (auto simp: runningCampaigns_def)
  have "map (verdict now (runningCampaigns w)) (campaigns w) =
        map (\<lambda>c. if c_status c = ''running'' \<and> pendingCount w c = 0 \<and>
                     successCount c + failureCount c \<ge> totalRecipients c
                  then c\<lparr>c_status := ''completed'', completedAt := Some now\<rparr> else c) (campaigns w)"
    using verdict_running [OF assms] by (simp cong: map_cong)
  with completeAll_campaigns [OF d s, of now] show ?thesis
    by (simp add: completionSweep_def)
qed

text \<open>
  Claim C7: the completion sweep sets a campaign to completed, with the time of the
  sweep as completion time, if and only if the campaign is running, none of its
  scheduled notifications is pending or queued, and its success and failure counts
  together reach its total of recipients; every other campaign, and so every campaign
  with a pending or queued recipient, is left as it was, as is the rest of the store.
  The ids of the campaigns are distinct, being the primary key of the table.
\<close>

theorem completion_sweep:
  assumes "distinct (map c_id (campaigns w))"
  shows "completionSweep now w =
     w\<lparr>campaigns :=
         map (\<lambda>c. if c_status c = ''running'' \<and>
                     \<not> (\<exists>n \<in> set (scheduledNotifications w).
                          campaignId n = Some (c_id c) \<and> sn_status n \<in> {''pending'', ''queued''}) \<and>
                     successCount c + failureCount c \<ge> totalRecipients c
                  then c\<lparr>c_status := ''completed'', completedAt := Some now\<rparr> else c)
           (campaigns w)\<rparr>"
proof -
  have "pendingCount w c = 0 \<longleftrightarrow>
        \<not> (\<exists>n \<in> set (scheduledNotifications w).
              campaignId n = Some (c_id c) \<and> sn_status n \<in> {''pending'', ''queued''})" for c
    by (auto simp: pendingCount_def filter_empty_conv)
  with completionSweep_eq [OF assms, of now] show ?thesis
    by simp
qed

theorem completion_sweep_witness:
  "distinct (map c_id (campaigns season)) \<and>
   map (\<lambda>c. (c_status c, completedAt c)) (campaigns (completionSweep 7000 season)) =
     [(''completed'', Some 7000), (''running'', None), (''running'', None), (''paused'', None)]"
proof -
  have d: "distinct (map c_id (campaigns season))"
    by (simp add: season_def drive_def)
  show ?thesis
    unfolding completion_sweep [OF d]
    by (simp add: season_def drive_def reminder_def)
qed

section \<open>Cancelling a scheduled notification (claim C8)\<close>

lemma updateScheduled_present:
  "i \<in> sn_id ` set (scheduledNotifications w) \<Longrightarrow>
     updateScheduled i s w =
       (None, w\<lparr>scheduledNotifications :=
                  map (\<lambda>n. if sn_id n = i then n\<lparr>sn_status := s\<rparr> else n) (scheduledNotifications w)\<rparr>)"
  by (simp add: updateScheduled_def)

lemma cancelled_notPending_list:
  "list_all (\<lambda>m. sn_id m \<noteq> i \<or> sn_status m \<noteq> ''pending'')
     (map (\<lambda>n. if sn_id n = i then n\<lparr>sn_status := ''cancelled''\<rparr> else n) xs)"
  by (induction xs) simp_all

lemma cancelled_notPending:
  "notPending i (w\<lparr>scheduledNotifications :=
               map (\<lambda>n. if sn_id n = i then n\<lparr>sn_status := ''cancelled''\<rparr> else n)
                 (scheduledNotifications w)\<rparr>)"
proof -
  have "scheduledNotifications (w\<lparr>scheduledNotifications :=
               map (\<lambda>n. if sn_id n = i then n\<lparr>sn_status := ''cancelled''\<rparr> else n)
                 (scheduledNotifications w)\<rparr>) =
        map (\<lambda>n. if sn_id n = i then n\<lparr>sn_status := ''cancelled''\<rparr> else n)
                 (scheduledNotifications w)"
    by simp
  then show ?thesis
    unfolding notPending_def by (simp only: cancelled_notPending_list)
qed

lemma find_SomeD: "find P xs = Some x \<Longrightarrow> x \<in> set xs \<and> P x"
  by (induction xs) (auto split: if_splits)

text \<open>
  Claim C8 as stated: cancelling a scheduled notification succeeds exactly when its
  status is pending.

  It fails for a pending record of another user: the handler looks the record up by id,
  by the requesting user and by the status pending. User 1 asks to cancel record 3,
  which is pending and belongs to user 2; the answer is 404 and nothing changes.
\<close>

theorem cancel_needs_owner:
  "cancelScheduled 1 3 agenda =
     (NotFound ''Scheduled notification not found or cannot be cancelled'', agenda) \<and>
   map (\<lambda>n. (sn_id n, userId n, sn_status n)) (scheduledNotifications agenda) =
     [(1, Some 1, ''pending''), (2, Some 1, ''pending''), (3, Some 2, ''pending''),
      (4, None, ''cancelled'')]"
  by (simp add: cancelScheduled_def agenda_def reminder_def)

text \<open>
  Claim C8 as amended: a cancel request succeeds exactly when the record with that id
  is pending and belongs to the requesting user; it then sets the record to cancelled,
  changes nothing else, and no later promotion sweep selects the record. Every other
  request, in particular one for a record that is queued or in any other status than
  pending, is answered with the 404 error and changes nothing.
\<close>

theorem cancel_pending_by_owner:
  assumes "distinct (map sn_id (scheduledNotifications w))"
  shows "(if \<exists>n \<in> set (scheduledNotifications w).
               sn_id n = i \<and> userId n = Some uid \<and> sn_status n = ''pending''
          then fst (cancelScheduled uid i w) = Ok ''Scheduled notification cancelled successfully'' \<and>
               snd (cancelScheduled uid i w) =
                 w\<lparr>scheduledNotifications :=
                     map (\<lambda>n. if sn_id n = i then n\<lparr>sn_status := ''cancelled''\<rparr> else n)
                       (scheduledNotifications w)\<rparr> \<and>
               i \<notin> sn_id ` set (dueNotifications now (sweeps ss (snd (cancelScheduled uid i w))))
          else cancelScheduled uid i w =
                 (NotFound ''Scheduled notification not found or cannot be cancelled'', w))"
proof (cases "find (\<lambda>n. sn_id n = i \<and> userId n = Some uid \<and> sn_status n = ''pending'')
                (scheduledNotifications w)")
  case None
  then have "\<not> (\<exists>n \<in> set (scheduledNotifications w).
               sn_id n = i \<and> userId n = Some uid \<and> sn_status n = ''pending'')"
    by (auto simp: find_None_iff)
  with None show ?thesis by (simp add: cancelScheduled_def)
next
  case (Some scheduled)
  then have m: "scheduled \<in> set (scheduledNotifications w)" and
    p: "sn_id scheduled = i \<and> userId scheduled = Some uid \<and> sn_status scheduled = ''pending''"
    by (auto dest: find_SomeD)
  then have ex: "\<exists>n \<in> set (scheduledNotifications w).
               sn_id n = i \<and> userId n = Some uid \<and> sn_status n = ''pending''"
    by blast
  from m p have "i \<in> sn_id ` set (scheduledNotifications w)" by force
  note u = updateScheduled_present [OF this, of "''cancelled''"]
  let ?w1 = "w\<lparr>scheduledNotifications :=
               map (\<lambda>n. if sn_id n = i then n\<lparr>sn_status := ''cancelled''\<rparr> else n)
                 (scheduledNotifications w)\<rparr>"
  have c: "cancelScheduled uid i w = (Ok ''Scheduled notification cancelled successfully'', ?w1)"
    by (simp add: cancelScheduled_def Some u)
  have "map sn_id (scheduledNotifications ?w1) =
        map sn_id (map (\<lambda>n. if sn_id n = i then n\<lparr>sn_status := ''cancelled''\<rparr> else n)
                 (scheduledNotifications w))"
    by simp
  then have "map sn_id (scheduledNotifications ?w1) = map sn_id (scheduledNotifications w)"
    by (simp only: map_sn_id_update)
  with assms have "distinct (map sn_id (scheduledNotifications ?w1))"
    by (simp only:)
  moreover have "notPending i ?w1"
    by (rule cancelled_notPending)
  ultimately have "notPending i (sweeps ss ?w1)"
    by (rule sweeps_notPending)
  then have "i \<notin> sn_id ` set (dueNotifications now (sweeps ss ?w1))"
    by (rule notPending_not_due)
  with ex c show ?thesis by simp
qed

theorem cancel_pending_by_owner_witness:
  "distinct (map sn_id (scheduledNotifications agenda)) \<and>
   fst (cancelScheduled 1 1 agenda) = Ok ''Scheduled notification cancelled successfully'' \<and>
   map sn_status (scheduledNotifications (snd (cancelScheduled 1 1 agenda))) =
     [''cancelled'', ''pending'', ''pending'', ''cancelled''] \<and>
   1 \<notin> sn_id ` set (dueNotifications 2000 (sweeps [(queueUp, 1000)] (snd (cancelScheduled 1 1 agenda)))) \<and>
   cancelScheduled 1 4 agenda =
     (NotFound ''Scheduled notification not found or cannot be cancelled'', agenda) \<and>
   cancelScheduled 1 2 (promotionSweep queueUp 6000 agenda) =
     (NotFound ''Scheduled notification not found or cannot be cancelled'', promotionSweep queueUp 6000 agenda)"
proof -
  have d: "distinct (map sn_id (scheduledNotifications agenda))"
    by (simp add: agenda_def reminder_def)
  have d2: "distinct (map sn_id (scheduledNotifications (promotionSweep queueUp 6000 agenda)))"
    using d by (simp add: promotionSweep_ids)
  have yes: "\<exists>n \<in> set (scheduledNotifications agenda).
               sn_id n = 1 \<and> userId n = Some 1 \<and> sn_status n = ''pending''"
    by (simp add: agenda_def reminder_def)
  have no: "\<not> (\<exists>n \<in> set (scheduledNotifications agenda).
               sn_id n = 4 \<and> userId n = Some 1 \<and> sn_status n = ''pending'')"
    by (simp add: agenda_def reminder_def)
  have no2: "\<not> (\<exists>n \<in> set (scheduledNotifications (promotionSweep queueUp 6000 agenda)).
               sn_id n = 2 \<and> userId n = Some 1 \<and> sn_status n = ''pending'')"
    unfolding promotionSweep_eq [OF d] by (simp add: agenda_def reminder_def queueUp_def)
  note t = cancel_pending_by_owner [OF d, of 1 1 2000 "[(queueUp, 1000)]", unfolded if_P [OF yes]]
  from t have a1: "fst (cancelScheduled 1 1 agenda) = Ok ''Scheduled notification cancelled successfully''" ..
  from t have e: "snd (cancelScheduled 1 1 agenda) =
                 agenda\<lparr>scheduledNotifications :=
                     map (\<lambda>n. if sn_id n = 1 then n\<lparr>sn_status := ''cancelled''\<rparr> else n)
                       (scheduledNotifications agenda)\<rparr>"
    by (elim conjE)
  from t have a3: "1 \<notin> sn_id ` set (dueNotifications 2000 (sweeps [(queueUp, 1000)] (snd (cancelScheduled 1 1 agenda))))"
    by (elim conjE)
  have s: "map sn_status (scheduledNotifications (snd (cancelScheduled 1 1 agenda))) =
     [''cancelled'', ''pending'', ''pending'', ''cancelled'']"
    unfolding e by (simp add: agenda_def reminder_def)
  note b = cancel_pending_by_owner [OF d, of 4 1, unfolded if_not_P [OF no]]
  note c = cancel_pending_by_owner [OF d2, of 2 1, unfolded if_not_P [OF no2]]
  from d a1 s a3 b c show ?thesis by (intro conjI)
qed

section \<open>The bounds of a bulk submission (claim C10)\<close>

lemma isArrayBetween_iff:
  "name \<in> set (isArrayBetween lo hi name f) \<longleftrightarrow>
     \<not> (\<exists>xs. f = Valid xs \<and> lo \<le> length xs \<and> length xs \<le> hi)"
  by (auto simp: isArrayBetween_def split: field.splits)

lemma other_validators_silent:
  "''recipients'' \<notin> set (isInChannels ''channel'' f1)"
  "''recipients'' \<notin> set (nonEmptyString ''message'' f2)"
  "''recipients'' \<notin> set (optionalField ''subject'' f3)"
  "''recipients'' \<notin> set (optionalField ''templateId'' f4)"
  "''recipients'' \<notin> set (optionalField ''sendAt'' f5)"
  by (simp_all add: isInChannels_def nonEmptyString_def optionalField_def split: field.splits)

text \<open>
  Claim C10: the bulk route reports a validation error for \<^verbatim>\<open>recipients\<close> exactly
  when it is not an array of 1 to 100 elements; a request outside these bounds is
  answered with the validation errors, and the world is unchanged: no job is enqueued
  and no scheduled notification is created; and an answer that accepts the request,
  queued or scheduled, is given only within the bounds.
\<close>

theorem bulk_recipients_bounds:
  "(''recipients'' \<in> set (validateBulk b) \<longleftrightarrow>
      \<not> (\<exists>rs. req_recipients b = Valid rs \<and> 1 \<le> length rs \<and> length rs \<le> 100)) \<and>
   (\<not> (\<exists>rs. req_recipients b = Valid rs \<and> 1 \<le> length rs \<and> length rs \<le> 100) \<longrightarrow>
      postBulk queueDown now uid b w = (ValidationFailed (validateBulk b), w)) \<and>
   (fst (postBulk queueDown now uid b w) = QueuedBulk k \<or>
    fst (postBulk queueDown now uid b w) = ScheduledBulk at k ids \<longrightarrow>
      (\<exists>rs. req_recipients b = Valid rs \<and> 1 \<le> length rs \<and> length rs \<le> 100))"
proof -
  have bounds: "''recipients'' \<in> set (validateBulk b) \<longleftrightarrow>
      \<not> (\<exists>rs. req_recipients b = Valid rs \<and> 1 \<le> length rs \<and> length rs \<le> 100)"
    unfolding validateBulk_def
    by (simp only: set_append Un_iff isArrayBetween_iff other_validators_silent simp_thms)
  have rejected: "postBulk queueDown now uid b w = (ValidationFailed (validateBulk b), w)"
    if "validateBulk b \<noteq> []"
    using that by (cases "validateBulk b") (simp_all add: postBulk_def)
  have outside: "postBulk queueDown now uid b w = (ValidationFailed (validateBulk b), w)"
    if "\<not> (\<exists>rs. req_recipients b = Valid rs \<and> 1 \<le> length rs \<and> length rs \<le> 100)"
  proof (rule rejected)
    from that bounds have "''recipients'' \<in> set (validateBulk b)" by blast
    then show "validateBulk b \<noteq> []" by auto
  qed
  have accepted: "\<exists>rs. req_recipients b = Valid rs \<and> 1 \<le> length rs \<and> length rs \<le> 100"
    if "fst (postBulk queueDown now uid b w) = QueuedBulk k \<or>
        fst (postBulk queueDown now uid b w) = ScheduledBulk at k ids"
  proof (rule ccontr)
    assume "\<not> (\<exists>rs. req_recipients b = Valid rs \<and> 1 \<le> length rs \<and> length rs \<le> 100)"
    from outside [OF this] that show False by simp
  qed
  from bounds outside accepted show ?thesis by blast
qed

theorem bulk_recipients_bounds_witness:
  "postBulk queueUp 0 1 (bulk []) shop = (ValidationFailed [''recipients''], shop) \<and>
   postBulk queueUp 0 1 (bulk (replicate 101 ''a@x.com'')) shop =
     (ValidationFailed [''recipients''], shop) \<and>
   ''recipients'' \<notin> set (validateBulk (bulk (replicate 100 ''a@x.com''))) \<and>
   ''recipients'' \<notin> set (validateBulk (bulk [''a@x.com'']))"
proof -
  have v: "validateBulk (bulk rs) = isArrayBetween 1 100 ''recipients'' (Valid rs)" for rs
    by (simp add: validateBulk_def bulk_def isInChannels_def nonEmptyString_def optionalField_def)
  have a: "validateBulk (bulk []) = [''recipients'']"
    by (simp add: v isArrayBetween_def)
  have b: "validateBulk (bulk (replicate 101 ''a@x.com'')) = [''recipients'']"
    by (simp add: v isArrayBetween_def)
  have r: "req_recipients (bulk rs) = Valid rs" for rs
    by (simp add: bulk_def)
  note t0 = bulk_recipients_bounds [of "bulk []" queueUp 0 1 shop 0 0 "[]"]
  note t1 = bulk_recipients_bounds [of "bulk (replicate 101 ''a@x.com'')" queueUp 0 1 shop 0 0 "[]"]
  note t2 = bulk_recipients_bounds [of "bulk (replicate 100 ''a@x.com'')" queueUp 0 1 shop 0 0 "[]"]
  note t3 = bulk_recipients_bounds [of "bulk [''a@x.com'']" queueUp 0 1 shop 0 0 "[]"]
  from t0 a have "postBulk queueUp 0 1 (bulk []) shop = (ValidationFailed [''recipients''], shop)"
    by (simp add: r)
  moreover from t1 b have "postBulk queueUp 0 1 (bulk (replicate 101 ''a@x.com'')) shop =
     (ValidationFailed [''recipients''], shop)"
    by (simp add: r)
  moreover from t2 have "''recipients'' \<notin> set (validateBulk (bulk (replicate 100 ''a@x.com'')))"
    by (simp add: r)
  moreover from t3 have "''recipients'' \<notin> set (validateBulk (bulk [''a@x.com'']))"
    by (simp add: r)
  ultimately show ?thesis by (intro conjI)
qed

end
